theory Spec2Isabelle
  imports Complex_Main
begin

section \<open>JavaScript numbers and the coercions applied to query parameters\<close>

text \<open>
  The handlers of \<^verbatim>\<open>adminStatsController.js\<close> read \<^verbatim>\<open>page\<close>, \<^verbatim>\<open>limit\<close> and
  \<^verbatim>\<open>sortOrder\<close> from \<^verbatim>\<open>req.query\<close> and use them in arithmetic
  (\<^verbatim>\<open>(page - 1) * limit\<close>, \<^verbatim>\<open>total / limit\<close>) and under \<^verbatim>\<open>parseInt\<close>.
  A JavaScript number is modelled as NaN, one of the two infinities, or a finite value kept
  as an exact rational.  The idealisation: finite results are not rounded to a double and
  negative zero is identified with zero.  Integers of magnitude below \<open>2^53\<close> and the
  quotient-then-ceiling of two such integers are exact in a double, so on integer page,
  limit and document counts the model and the runtime agree.
\<close>

datatype jsnum = NaN | PosInf | NegInf | Fin rat

definition inf_of :: "bool \<Rightarrow> jsnum" where
  "inf_of positive = (if positive then PosInf else NegInf)"

fun js_sub :: "jsnum \<Rightarrow> jsnum \<Rightarrow> jsnum" where
  "js_sub (Fin a) (Fin b) = Fin (a - b)"
| "js_sub NaN _ = NaN"
| "js_sub _ NaN = NaN"
| "js_sub PosInf PosInf = NaN"
| "js_sub NegInf NegInf = NaN"
| "js_sub PosInf _ = PosInf"
| "js_sub NegInf _ = NegInf"
| "js_sub (Fin a) PosInf = NegInf"
| "js_sub (Fin a) NegInf = PosInf"

fun js_mul :: "jsnum \<Rightarrow> jsnum \<Rightarrow> jsnum" where
  "js_mul (Fin a) (Fin b) = Fin (a * b)"
| "js_mul NaN _ = NaN"
| "js_mul _ NaN = NaN"
| "js_mul PosInf PosInf = PosInf"
| "js_mul PosInf NegInf = NegInf"
| "js_mul NegInf PosInf = NegInf"
| "js_mul NegInf NegInf = PosInf"
| "js_mul PosInf (Fin b) = (if b = 0 then NaN else inf_of (0 < b))"
| "js_mul NegInf (Fin b) = (if b = 0 then NaN else inf_of (b < 0))"
| "js_mul (Fin a) PosInf = (if a = 0 then NaN else inf_of (0 < a))"
| "js_mul (Fin a) NegInf = (if a = 0 then NaN else inf_of (a < 0))"

fun js_div :: "jsnum \<Rightarrow> jsnum \<Rightarrow> jsnum" where
  "js_div (Fin a) (Fin b) =
     (if b \<noteq> 0 then Fin (a / b) else if a = 0 then NaN else inf_of (0 < a))"
| "js_div NaN _ = NaN"
| "js_div _ NaN = NaN"
| "js_div (Fin a) PosInf = Fin 0"
| "js_div (Fin a) NegInf = Fin 0"
| "js_div PosInf (Fin b) = inf_of (0 \<le> b)"
| "js_div NegInf (Fin b) = inf_of (b < 0)"
| "js_div PosInf _ = NaN"
| "js_div NegInf _ = NaN"

fun math_ceil :: "jsnum \<Rightarrow> jsnum" where
  "math_ceil (Fin a) = Fin (of_int \<lceil>a\<rceil>)"
| "math_ceil x = x"

subsection \<open>Strings as numbers\<close>

text \<open>
  Strings are byte strings; the white space recognised is the ASCII part of the
  language's WhiteSpace and LineTerminator classes (TAB, LF, VT, FF, CR, SP).
\<close>

definition isWhite :: "char \<Rightarrow> bool" where
  "isWhite c = ((of_char c :: nat) \<in> {9, 10, 11, 12, 13, 32})"

definition digitVal :: "char \<Rightarrow> nat" where
  "digitVal c =
     (let n = (of_char c :: nat) in
      if 48 \<le> n \<and> n \<le> 57 then n - 48
      else if 97 \<le> n \<and> n \<le> 122 then n - 87
      else if 65 \<le> n \<and> n \<le> 90 then n - 55
      else 36)"

definition isDigitIn :: "nat \<Rightarrow> char \<Rightarrow> bool" where
  "isDigitIn radix c = (digitVal c < radix)"

definition digitsVal :: "nat \<Rightarrow> string \<Rightarrow> nat" where
  "digitsVal radix ds = foldl (\<lambda>acc c. acc * radix + digitVal c) 0 ds"

definition trimStart :: "string \<Rightarrow> string" where
  "trimStart s = dropWhile isWhite s"

definition trim :: "string \<Rightarrow> string" where
  "trim s = rev (dropWhile isWhite (rev (dropWhile isWhite s)))"

definition startsWith :: "string \<Rightarrow> string \<Rightarrow> bool" where
  "startsWith s p = (take (length p) s = p)"

text \<open>
  \<^verbatim>\<open>parseInt(string)\<close> with no radix argument: leading white space is skipped, a sign is
  read, a \<^verbatim>\<open>0x\<close>/\<^verbatim>\<open>0X\<close> prefix selects radix 16, and the longest prefix of digits of the
  radix is the value; anything after it is ignored, and no digit at all gives NaN.
\<close>

definition parseInt_string :: "string \<Rightarrow> jsnum" where
  "parseInt_string s =
     (let s1 = trimStart s;
          negative = startsWith s1 ''-'';
          s2 = (if startsWith s1 ''-'' \<or> startsWith s1 ''+'' then tl s1 else s1);
          hex = (startsWith s2 ''0x'' \<or> startsWith s2 ''0X'');
          radix = (if hex then 16 else 10);
          s3 = (if hex then drop 2 s2 else s2);
          z = takeWhile (isDigitIn radix) s3
      in if z = [] then NaN
         else Fin (of_int ((if negative then - 1 else 1) * int (digitsVal radix z))))"

text \<open>
  The conversion of a string by the arithmetic operators (StringToNumber): the string is
  trimmed at both ends; the empty string is 0; then it must be, as a whole,
  \<^verbatim>\<open>Infinity\<close> with an optional sign, a \<^verbatim>\<open>0x\<close>/\<^verbatim>\<open>0o\<close>/\<^verbatim>\<open>0b\<close> literal without sign, or a
  signed decimal literal with optional fraction and exponent; otherwise it is NaN.
\<close>

definition radixLiteral :: "nat \<Rightarrow> string \<Rightarrow> jsnum" where
  "radixLiteral radix ds =
     (if ds \<noteq> [] \<and> list_all (isDigitIn radix) ds then Fin (of_nat (digitsVal radix ds)) else NaN)"

definition pow10 :: "int \<Rightarrow> rat" where
  "pow10 e = (if 0 \<le> e then 10 ^ nat e else 1 / 10 ^ nat (- e))"

definition exponentPart :: "string \<Rightarrow> int option" where
  "exponentPart r =
     (if r = [] then Some 0
      else if startsWith r ''e'' \<or> startsWith r ''E'' then
        (let r1 = tl r;
             negative = startsWith r1 ''-'';
             ds = (if startsWith r1 ''-'' \<or> startsWith r1 ''+'' then tl r1 else r1)
         in if ds \<noteq> [] \<and> list_all (isDigitIn 10) ds
            then Some ((if negative then - 1 else 1) * int (digitsVal 10 ds))
            else None)
      else None)"

definition unsignedDecimal :: "string \<Rightarrow> rat option" where
  "unsignedDecimal t =
     (let ip = takeWhile (isDigitIn 10) t;
          r1 = dropWhile (isDigitIn 10) t;
          dot = startsWith r1 ''.'';
          fp = (if dot then takeWhile (isDigitIn 10) (tl r1) else []);
          r2 = (if dot then dropWhile (isDigitIn 10) (tl r1) else r1)
      in if ip = [] \<and> fp = [] then None
         else (case exponentPart r2 of
                 None \<Rightarrow> None
               | Some e \<Rightarrow>
                   Some ((of_nat (digitsVal 10 ip)
                          + of_nat (digitsVal 10 fp) / 10 ^ length fp) * pow10 e)))"

definition stringToNumber :: "string \<Rightarrow> jsnum" where
  "stringToNumber s =
     (let t = trim s in
      if t = [] then Fin 0
      else if startsWith t ''0x'' \<or> startsWith t ''0X'' then radixLiteral 16 (drop 2 t)
      else if startsWith t ''0o'' \<or> startsWith t ''0O'' then radixLiteral 8 (drop 2 t)
      else if startsWith t ''0b'' \<or> startsWith t ''0B'' then radixLiteral 2 (drop 2 t)
      else
        (let negative = startsWith t ''-'';
             u = (if startsWith t ''-'' \<or> startsWith t ''+'' then tl t else t)
         in if u = ''Infinity'' then inf_of (\<not> negative)
            else (case unsignedDecimal u of
                    None \<Rightarrow> NaN
                  | Some v \<Rightarrow> Fin (if negative then - v else v))))"

text \<open>
  A destructured query parameter is the number literal of its default when the parameter is
  absent, and the string from the URL otherwise.
\<close>

datatype jsval = JNum int | JStr string

fun withDefault :: "string option \<Rightarrow> jsval \<Rightarrow> jsval" where
  "withDefault None d = d"
| "withDefault (Some s) d = JStr s"

fun toNumber :: "jsval \<Rightarrow> jsnum" where
  "toNumber (JNum n) = Fin (of_int n)"
| "toNumber (JStr s) = stringToNumber s"

fun parseInt :: "jsval \<Rightarrow> jsnum" where
  "parseInt (JNum n) = Fin (of_int n)"
| "parseInt (JStr s) = parseInt_string s"

section \<open>Documents, queries and the database\<close>

text \<open>
  The collections are owned by the database; the controllers only read them.  A stored
  document is a list of fields with scalar values (documents with array or embedded-document
  fields are outside the model).  A missing field reads as null, as it does for the
  database's equality match, sort and \<^verbatim>\<open>$group\<close>.
\<close>

datatype bson = BNull | BBool bool | BNum int | BStr string | BDate int | BId nat

type_synonym doc = "(string \<times> bson) list"

definition field :: "doc \<Rightarrow> string \<Rightarrow> bson" where
  "field d k = (case map_of d k of None \<Rightarrow> BNull | Some v \<Rightarrow> v)"

text \<open>The database's comparison order: by type bracket first, then by value.\<close>

fun bson_rank :: "bson \<Rightarrow> nat" where
  "bson_rank BNull = 1"
| "bson_rank (BNum _) = 2"
| "bson_rank (BStr _) = 3"
| "bson_rank (BId _) = 7"
| "bson_rank (BBool _) = 8"
| "bson_rank (BDate _) = 9"

fun str_le :: "string \<Rightarrow> string \<Rightarrow> bool" where
  "str_le [] _ = True"
| "str_le (x # xs) [] = False"
| "str_le (x # xs) (y # ys) =
     ((of_char x :: nat) < of_char y \<or> (x = y \<and> str_le xs ys))"

fun bson_le :: "bson \<Rightarrow> bson \<Rightarrow> bool" where
  "bson_le (BNum a) (BNum b) = (a \<le> b)"
| "bson_le (BStr a) (BStr b) = str_le a b"
| "bson_le (BId a) (BId b) = (a \<le> b)"
| "bson_le (BBool a) (BBool b) = (a \<longrightarrow> b)"
| "bson_le (BDate a) (BDate b) = (a \<le> b)"
| "bson_le x y = (bson_rank x \<le> bson_rank y)"

datatype cond = Eq bson | Gte bson

type_synonym query_filter = "(string \<times> cond) list"

fun holds :: "doc \<Rightarrow> string \<times> cond \<Rightarrow> bool" where
  "holds d (k, Eq v) = (field d k = v)"
| "holds d (k, Gte v) = (bson_rank (field d k) = bson_rank v \<and> bson_le v (field d k))"

definition matches :: "query_filter \<Rightarrow> doc \<Rightarrow> bool" where
  "matches f d = list_all (holds d) f"

text \<open>
  Sorting by one key.  The database fixes no order among documents that tie on the key; the
  model keeps them in stored order (a stable insertion sort).  No result below depends on
  the order of ties.
\<close>

fun insert_by :: "('a \<Rightarrow> 'a \<Rightarrow> bool) \<Rightarrow> 'a \<Rightarrow> 'a list \<Rightarrow> 'a list" where
  "insert_by le x [] = [x]"
| "insert_by le x (y # ys) = (if le x y then x # y # ys else y # insert_by le x ys)"

definition sort_by :: "('a \<Rightarrow> 'a \<Rightarrow> bool) \<Rightarrow> 'a list \<Rightarrow> 'a list" where
  "sort_by le xs = foldr (insert_by le) xs []"

definition sort_docs :: "string \<Rightarrow> bool \<Rightarrow> doc list \<Rightarrow> doc list" where
  "sort_docs key ascending ds =
     sort_by (\<lambda>a b. if ascending then bson_le (field a key) (field b key)
                     else bson_le (field b key) (field a key)) ds"

datatype collection = Product | Shop | Engineer | Ads | User

text \<open>
  A returned document: \<^verbatim>\<open>select\<close> drops the excluded fields and \<^verbatim>\<open>populate\<close> replaces
  the reference at one path by the referenced document cut down to the chosen fields and
  \<^verbatim>\<open>_id\<close>, or by null when nothing is referenced.
\<close>

datatype outval = Val bson | Sub doc

type_synonym outdoc = "(string \<times> outval) list"

record find_query =
  coll :: collection
  conditions :: query_filter
  sortObj :: "(string \<times> jsnum) list"
  skipArg :: jsnum
  limitArg :: jsnum
  populatePath :: "(string \<times> string list) option"
  selectExcl :: "string list"

datatype pipeline = GroupByType | GroupByGovernorate

datatype dbcall =
    CountDocuments collection query_filter
  | Find find_query
  | Aggregate collection pipeline

text \<open>
  The database is its collections together with the calls on which it fails: \<open>fault\<close>
  gives the message of the exception a call raises, if it raises one.
\<close>

record database =
  documents :: "collection \<Rightarrow> doc list"
  fault :: "dbcall \<Rightarrow> string option"

text \<open>
  Modelled from the spec: the schemas under \<^verbatim>\<open>models/\<close> that declare which collection a
  reference points to are not among the sources.  The spec resolves a product's
  \<^verbatim>\<open>userId\<close> to the submitting user and an engineer's or shop's \<^verbatim>\<open>addedBy\<close> to a named
  user, so every populated path is taken to refer to the users' collection.
\<close>

definition refModel :: "collection \<Rightarrow> string \<Rightarrow> collection" where
  "refModel c path = User"

subsection \<open>Awaited calls inside a try block\<close>

text \<open>
  The body of a handler awaits database calls one after the other.  Its outcome is the
  value it computes or the exception that ended it, together with the calls issued, in
  order.  \<open>Unspecified\<close> marks the calls whose arguments lie outside what the sources
  determine: how the query builder and the database treat a sort direction other than
  \<open>1\<close> and \<open>-1\<close>, a skip that is not a non-negative integer or a limit that is not a
  positive integer is decided by code that is not part of this repository.
\<close>

datatype 'a result = Unspecified | Raise string | Return 'a

type_synonym 'a comp = "dbcall list \<times> 'a result"

definition returns :: "'a \<Rightarrow> 'a comp" where
  "returns a = ([], Return a)"

definition await :: "'a comp \<Rightarrow> ('a \<Rightarrow> 'b comp) \<Rightarrow> 'b comp" where
  "await m f =
     (case snd m of
        Return a \<Rightarrow> (fst m @ fst (f a), snd (f a))
      | Raise e \<Rightarrow> (fst m, Raise e)
      | Unspecified \<Rightarrow> (fst m, Unspecified))"

definition call :: "database \<Rightarrow> dbcall \<Rightarrow> 'a result \<Rightarrow> 'a comp" where
  "call db c r = ([c], case fault db c of Some e \<Rightarrow> Raise e | None \<Rightarrow> r)"

definition countDocuments :: "database \<Rightarrow> collection \<Rightarrow> query_filter \<Rightarrow> nat comp" where
  "countDocuments db c f =
     call db (CountDocuments c f) (Return (length (filter (matches f) (documents db c))))"

text \<open>
  The query is run in the order filter, sort, skip, limit; the projection and the resolution
  of references apply to the documents that remain.  A sort object is carried out when it is
  empty (no sorting) or has one key that is a non-empty name not starting with \<^verbatim>\<open>$\<close>
  and a direction of \<open>1\<close> or \<open>-1\<close>; a skip when it is a non-negative integer; a limit
  when it is a positive integer.
\<close>

fun nat_of_jsnum :: "jsnum \<Rightarrow> nat option" where
  "nat_of_jsnum (Fin r) = (if 0 \<le> r \<and> of_int \<lfloor>r\<rfloor> = r then Some (nat \<lfloor>r\<rfloor>) else None)"
| "nat_of_jsnum _ = None"

definition plainKey :: "string \<Rightarrow> bool" where
  "plainKey k = (k \<noteq> [] \<and> \<not> startsWith k ''$'')"

definition applySort :: "(string \<times> jsnum) list \<Rightarrow> doc list \<Rightarrow> doc list option" where
  "applySort s ds =
     (case s of
        [] \<Rightarrow> Some ds
      | [(k, dir)] \<Rightarrow>
          if plainKey k \<and> dir = Fin 1 then Some (sort_docs k True ds)
          else if plainKey k \<and> dir = Fin (- 1) then Some (sort_docs k False ds)
          else None
      | _ \<Rightarrow> None)"

definition select :: "string list \<Rightarrow> doc \<Rightarrow> doc" where
  "select excluded d = filter (\<lambda>(k, v). k \<notin> set excluded) d"

definition resolve :: "doc list \<Rightarrow> string list \<Rightarrow> bson \<Rightarrow> outval" where
  "resolve targets kept v =
     (case v of
        BId i \<Rightarrow>
          (case find (\<lambda>u. field u ''_id'' = BId i) targets of
             None \<Rightarrow> Val BNull
           | Some u \<Rightarrow> Sub (filter (\<lambda>(k, w). k \<in> set (''_id'' # kept)) u))
      | _ \<Rightarrow> Val v)"

definition populate :: "database \<Rightarrow> collection \<Rightarrow> (string \<times> string list) option \<Rightarrow> doc \<Rightarrow> outdoc" where
  "populate db c p d =
     (case p of
        None \<Rightarrow> map (\<lambda>(k, v). (k, Val v)) d
      | Some (path, kept) \<Rightarrow>
          map (\<lambda>(k, v). (k, if k = path then resolve (documents db (refModel c path)) kept v
                             else Val v)) d)"

definition find_docs :: "database \<Rightarrow> find_query \<Rightarrow> outdoc list comp" where
  "find_docs db q =
     call db (Find q)
       (case applySort (sortObj q) (filter (matches (conditions q)) (documents db (coll q))) of
          None \<Rightarrow> Unspecified
        | Some ordered \<Rightarrow>
            (case (nat_of_jsnum (skipArg q), nat_of_jsnum (limitArg q)) of
               (Some s, Some l) \<Rightarrow>
                 if 1 \<le> l
                 then Return (map (\<lambda>d. populate db (coll q) (populatePath q) (select (selectExcl q) d))
                                (take l (drop s ordered)))
                 else Unspecified
             | _ \<Rightarrow> Unspecified))"

section \<open>The response envelope\<close>

record 'd response =
  httpStatus :: nat
  status :: string
  message :: string
  data :: "'d option"
  error :: "string option"

text \<open>
  Every handler is \<^verbatim>\<open>try { ... res.status(200).json(...) } catch (error) {
  res.status(500).json(...) }\<close>: the value of the body goes out with status 200, an exception
  with status 500 and its message.
\<close>

definition respond :: "string \<Rightarrow> string \<Rightarrow> 'd comp \<Rightarrow> 'd response option" where
  "respond okMessage errMessage body =
     (case snd body of
        Return d \<Rightarrow>
          Some \<lparr>httpStatus = 200, status = ''success'', message = okMessage,
                data = Some d, error = None\<rparr>
      | Raise e \<Rightarrow>
          Some \<lparr>httpStatus = 500, status = ''error'', message = errMessage,
                data = None, error = Some e\<rparr>
      | Unspecified \<Rightarrow> None)"

section \<open>The paginated listers\<close>

record req_query =
  q_page :: "string option"
  q_limit :: "string option"
  q_sortBy :: "string option"
  q_sortOrder :: "string option"
  q_verified :: "string option"
  q_active :: "string option"

record pagination =
  currentPage :: jsnum
  totalPages :: jsnum
  totalItems :: nat
  itemsPerPage :: jsnum

text \<open>
  The list is sent under the key \<^verbatim>\<open>products\<close>, \<^verbatim>\<open>engineers\<close>, \<^verbatim>\<open>shops\<close> or \<^verbatim>\<open>ads\<close>;
  the model calls it \<open>items\<close> in all four.
\<close>

record listing =
  items :: "outdoc list"
  pagination :: pagination

text \<open>
  \<^verbatim>\<open>const sort = {}; sort[sortBy] = parseInt(sortOrder)\<close>.  Assigning a number to the
  property \<^verbatim>\<open>__proto__\<close> of an object literal sets nothing, so for that one name the sort
  object stays empty.
\<close>

definition sortObject :: "string \<Rightarrow> jsnum \<Rightarrow> (string \<times> jsnum) list" where
  "sortObject sortBy v = (if sortBy = ''__proto__'' then [] else [(sortBy, v)])"

text \<open>\<^verbatim>\<open>if (flag !== undefined) { query[name] = flag === "true"; }\<close>\<close>

definition optionalFlag :: "string \<Rightarrow> string option \<Rightarrow> query_filter" where
  "optionalFlag name flag =
     (case flag of None \<Rightarrow> [] | Some s \<Rightarrow> [(name, Eq (BBool (s = ''true'')))])"

definition getPendingApprovals_try :: "database \<Rightarrow> req_query \<Rightarrow> listing comp" where
  "getPendingApprovals_try db q =
     (let page = withDefault (q_page q) (JNum 1);
          limit = withDefault (q_limit q) (JNum 10);
          sortBy = (case q_sortBy q of None \<Rightarrow> ''createdAt'' | Some s \<Rightarrow> s);
          sortOrder = withDefault (q_sortOrder q) (JNum (- 1));
          skip = js_mul (js_sub (toNumber page) (Fin 1)) (toNumber limit);
          sort' = sortObject sortBy (parseInt sortOrder)
      in await (find_docs db
                  \<lparr>coll = Product, conditions = [(''status'', Eq (BStr ''pending''))],
                   sortObj = sort', skipArg = skip, limitArg = parseInt limit,
                   populatePath = Some (''userId'', [''name'', ''phone'', ''email'']),
                   selectExcl = [''__v'']\<rparr>)
           (\<lambda>pendingProducts.
            await (countDocuments db Product [(''status'', Eq (BStr ''pending''))])
           (\<lambda>totalPending.
            returns
              \<lparr>items = pendingProducts,
               pagination =
                 \<lparr>currentPage = parseInt page,
                  totalPages = math_ceil (js_div (Fin (of_nat totalPending)) (toNumber limit)),
                  totalItems = totalPending,
                  itemsPerPage = parseInt limit\<rparr>\<rparr>)))"

definition getPendingApprovals :: "database \<Rightarrow> req_query \<Rightarrow> listing response option" where
  "getPendingApprovals db q =
     respond ''Pending approvals retrieved successfully'' ''Error retrieving pending approvals''
       (getPendingApprovals_try db q)"

definition getEngineersList_try :: "database \<Rightarrow> req_query \<Rightarrow> listing comp" where
  "getEngineersList_try db q =
     (let page = withDefault (q_page q) (JNum 1);
          limit = withDefault (q_limit q) (JNum 10);
          sortBy = (case q_sortBy q of None \<Rightarrow> ''createdAt'' | Some s \<Rightarrow> s);
          sortOrder = withDefault (q_sortOrder q) (JNum (- 1));
          skip = js_mul (js_sub (toNumber page) (Fin 1)) (toNumber limit);
          sort' = sortObject sortBy (parseInt sortOrder);
          query = [] @ optionalFlag ''isVerified'' (q_verified q)
      in await (find_docs db
                  \<lparr>coll = Engineer, conditions = query,
                   sortObj = sort', skipArg = skip, limitArg = parseInt limit,
                   populatePath = Some (''addedBy'', [''name'']),
                   selectExcl = [''notes'', ''__v'']\<rparr>)
           (\<lambda>engineers.
            await (countDocuments db Engineer query)
           (\<lambda>totalEngineers.
            returns
              \<lparr>items = engineers,
               pagination =
                 \<lparr>currentPage = parseInt page,
                  totalPages = math_ceil (js_div (Fin (of_nat totalEngineers)) (toNumber limit)),
                  totalItems = totalEngineers,
                  itemsPerPage = parseInt limit\<rparr>\<rparr>)))"

definition getEngineersList :: "database \<Rightarrow> req_query \<Rightarrow> listing response option" where
  "getEngineersList db q =
     respond ''Engineers list retrieved successfully'' ''Error retrieving engineers list''
       (getEngineersList_try db q)"

definition getShopsList_try :: "database \<Rightarrow> req_query \<Rightarrow> listing comp" where
  "getShopsList_try db q =
     (let page = withDefault (q_page q) (JNum 1);
          limit = withDefault (q_limit q) (JNum 10);
          sortBy = (case q_sortBy q of None \<Rightarrow> ''createdAt'' | Some s \<Rightarrow> s);
          sortOrder = withDefault (q_sortOrder q) (JNum (- 1));
          skip = js_mul (js_sub (toNumber page) (Fin 1)) (toNumber limit);
          sort' = sortObject sortBy (parseInt sortOrder);
          query = [(''isActive'', Eq (BBool True))] @ optionalFlag ''isVerified'' (q_verified q)
      in await (find_docs db
                  \<lparr>coll = Shop, conditions = query,
                   sortObj = sort', skipArg = skip, limitArg = parseInt limit,
                   populatePath = Some (''addedBy'', [''name'']),
                   selectExcl = [''notes'', ''verificationDocuments'', ''__v'']\<rparr>)
           (\<lambda>shops.
            await (countDocuments db Shop query)
           (\<lambda>totalShops.
            returns
              \<lparr>items = shops,
               pagination =
                 \<lparr>currentPage = parseInt page,
                  totalPages = math_ceil (js_div (Fin (of_nat totalShops)) (toNumber limit)),
                  totalItems = totalShops,
                  itemsPerPage = parseInt limit\<rparr>\<rparr>)))"

definition getShopsList :: "database \<Rightarrow> req_query \<Rightarrow> listing response option" where
  "getShopsList db q =
     respond ''Shops list retrieved successfully'' ''Error retrieving shops list''
       (getShopsList_try db q)"

definition getAdsList_try :: "database \<Rightarrow> req_query \<Rightarrow> listing comp" where
  "getAdsList_try db q =
     (let page = withDefault (q_page q) (JNum 1);
          limit = withDefault (q_limit q) (JNum 10);
          sortBy = (case q_sortBy q of None \<Rightarrow> ''createdAt'' | Some s \<Rightarrow> s);
          sortOrder = withDefault (q_sortOrder q) (JNum (- 1));
          skip = js_mul (js_sub (toNumber page) (Fin 1)) (toNumber limit);
          sort' = sortObject sortBy (parseInt sortOrder);
          query = [] @ optionalFlag ''active'' (q_active q)
      in await (find_docs db
                  \<lparr>coll = Ads, conditions = query,
                   sortObj = sort', skipArg = skip, limitArg = parseInt limit,
                   populatePath = None,
                   selectExcl = [''__v'']\<rparr>)
           (\<lambda>ads.
            await (countDocuments db Ads query)
           (\<lambda>totalAds.
            returns
              \<lparr>items = ads,
               pagination =
                 \<lparr>currentPage = parseInt page,
                  totalPages = math_ceil (js_div (Fin (of_nat totalAds)) (toNumber limit)),
                  totalItems = totalAds,
                  itemsPerPage = parseInt limit\<rparr>\<rparr>)))"

definition getAdsList :: "database \<Rightarrow> req_query \<Rightarrow> listing response option" where
  "getAdsList db q =
     respond ''Ads list retrieved successfully'' ''Error retrieving ads list''
       (getAdsList_try db q)"

text \<open>
  The four bodies are one and the same up to the collection, the query, the populated path
  and the excluded fields; \<open>lister\<close> is that common body, used to reason about the four
  at once.
\<close>

definition paginate :: "jsval \<Rightarrow> jsval \<Rightarrow> nat \<Rightarrow> pagination" where
  "paginate page limit totalCount =
     \<lparr>currentPage = parseInt page,
      totalPages = math_ceil (js_div (Fin (of_nat totalCount)) (toNumber limit)),
      totalItems = totalCount,
      itemsPerPage = parseInt limit\<rparr>"

definition lister_find ::
  "req_query \<Rightarrow> collection \<Rightarrow> query_filter \<Rightarrow> (string \<times> string list) option \<Rightarrow>
   string list \<Rightarrow> find_query" where
  "lister_find q c query pop excluded =
     \<lparr>coll = c, conditions = query,
      sortObj = sortObject (case q_sortBy q of None \<Rightarrow> ''createdAt'' | Some s \<Rightarrow> s)
                  (parseInt (withDefault (q_sortOrder q) (JNum (- 1)))),
      skipArg = js_mul (js_sub (toNumber (withDefault (q_page q) (JNum 1))) (Fin 1))
                  (toNumber (withDefault (q_limit q) (JNum 10))),
      limitArg = parseInt (withDefault (q_limit q) (JNum 10)),
      populatePath = pop, selectExcl = excluded\<rparr>"

definition lister ::
  "database \<Rightarrow> req_query \<Rightarrow> collection \<Rightarrow> query_filter \<Rightarrow> (string \<times> string list) option \<Rightarrow>
   string list \<Rightarrow> listing comp" where
  "lister db q c query pop excluded =
     await (find_docs db (lister_find q c query pop excluded))
       (\<lambda>found. await (countDocuments db c query)
       (\<lambda>totalCount.
          returns \<lparr>items = found,
                   pagination = paginate (withDefault (q_page q) (JNum 1))
                                  (withDefault (q_limit q) (JNum 10)) totalCount\<rparr>))"

section \<open>The dashboard counts\<close>

record card =
  count :: nat
  title :: string
  subtitle :: string
  icon :: string
  color :: string

record cards =
  pendingApprovalsCard :: card
  totalEngineersCard :: card
  verifiedShopsCard :: card
  activeAdsCard :: card

definition decorate :: "nat \<Rightarrow> nat \<Rightarrow> nat \<Rightarrow> nat \<Rightarrow> cards" where
  "decorate pendingApprovals totalEngineers verifiedShops activeAds =
     \<lparr>pendingApprovalsCard =
        \<lparr>count = pendingApprovals, title = ''Pending Approvals'',
         subtitle = ''Products awaiting approval'', icon = ''file-cabinet'', color = ''orange''\<rparr>,
      totalEngineersCard =
        \<lparr>count = totalEngineers, title = ''Total Engineers'',
         subtitle = ''Engineers registered in the system'', icon = ''engineer'', color = ''blue''\<rparr>,
      verifiedShopsCard =
        \<lparr>count = verifiedShops, title = ''Verified Shops'',
         subtitle = ''Verified and certified shops'', icon = ''storefront'', color = ''green''\<rparr>,
      activeAdsCard =
        \<lparr>count = activeAds, title = ''Active Ads'',
         subtitle = ''Currently active advertisements'', icon = ''megaphone'', color = ''purple''\<rparr>\<rparr>"

definition getDashboardCards_try :: "database \<Rightarrow> cards comp" where
  "getDashboardCards_try db =
     await (countDocuments db Product [(''status'', Eq (BStr ''pending''))])
       (\<lambda>pendingApprovals. await (countDocuments db Engineer [])
       (\<lambda>totalEngineers.
        await (countDocuments db Shop
                 [(''isVerified'', Eq (BBool True)), (''isActive'', Eq (BBool True))])
       (\<lambda>verifiedShops. await (countDocuments db Ads [(''active'', Eq (BBool True))])
       (\<lambda>activeAds.
        returns (decorate pendingApprovals totalEngineers verifiedShops activeAds)))))"

definition getDashboardCards :: "database \<Rightarrow> cards response option" where
  "getDashboardCards db =
     respond ''Dashboard cards data retrieved successfully''
       ''Error retrieving dashboard cards data'' (getDashboardCards_try db)"






section \<open>The composite dashboard\<close>

subsection \<open>One-decimal rates\<close>

text \<open>
  \<^verbatim>\<open>x.toFixed(1)\<close> is the decimal string with one fractional digit nearest to \<open>x\<close>, the
  larger one on a tie.  The string is kept as the number of tenths it denotes, and
  \<^verbatim>\<open>parseFloat\<close> reads it back.  \<open>x\<close> is an exact rational here: where the double
  computed by the runtime for a quotient falls on the other side of a tie than the exact
  quotient, the runtime's last digit differs by one from the model's.  Quotients with a
  power of two as denominator are exact in both.
\<close>

definition toFixed1 :: "rat \<Rightarrow> int" where
  "toFixed1 x = (if x < 0 then - \<lfloor>- x * 10 + 1 / 2\<rfloor> else \<lfloor>x * 10 + 1 / 2\<rfloor>)"

datatype rate_value = Tenths int | Literal rat

fun parseFloat :: "rate_value \<Rightarrow> rat" where
  "parseFloat (Tenths t) = of_int t / 10"
| "parseFloat (Literal r) = r"

definition approvalRate :: "nat \<Rightarrow> nat \<Rightarrow> rate_value" where
  "approvalRate approvedProducts totalProducts =
     (if 0 < totalProducts
      then Tenths (toFixed1 (of_nat approvedProducts / of_nat totalProducts * 100))
      else Literal 0)"

definition rejectionRate :: "nat \<Rightarrow> nat \<Rightarrow> rate_value" where
  "rejectionRate rejectedProducts totalProducts =
     (if 0 < totalProducts
      then Tenths (toFixed1 (of_nat rejectedProducts / of_nat totalProducts * 100))
      else Literal 0)"

subsection \<open>The two aggregations\<close>











subsection \<open>The handler\<close>

text \<open>
  The payload, flattened.  The fields that are literals in the source (growth figures, week
  and month counts, quality metrics, system health) and the two time stamps do not depend
  on the database and are left out.  \<open>today\<close> is the start of the current day in server
  time, \<^verbatim>\<open>new Date()\<close> after \<^verbatim>\<open>setHours(0, 0, 0, 0)\<close>.
\<close>

record dashboard =
  dashboardCards :: cards
  totalUsers :: nat
  totalProducts :: nat
  productsPending :: nat
  productsApproved :: nat
  productsRejected :: nat
  totalShops :: nat
  shopsVerified :: nat
  engineersTotal :: nat
  engineersVerified :: nat
  engineersAvailable :: nat
  registrationsToday :: nat
  submissionsToday :: nat
  pendingApproval :: nat
  approvalsToday :: nat
  rejectionsToday :: nat
  overallApprovalRate :: rat
  byCategory :: "(bson \<times> rat) list"
  popularCategories :: "(bson \<times> nat \<times> rat) list"
  byGovernorate :: "(bson \<times> nat \<times> nat) list"
  topRegions :: "(bson \<times> string \<times> rat) list"



section \<open>The documented interface\<close>

text \<open>
  \<^verbatim>\<open>adminStatsRoute.js\<close> binds the four list endpoints and documents their query
  parameters: \<^verbatim>\<open>page\<close> and \<^verbatim>\<open>limit\<close> are integers with minimum 1 (defaults 1 and 10),
  \<^verbatim>\<open>sortOrder\<close> is one of \<open>1\<close> and \<open>-1\<close>, and \<^verbatim>\<open>sortBy\<close> is one of an enumeration
  given per endpoint.
\<close>

datatype lister_route = PendingApprovals | Engineers | Shops | AdsList

fun route :: "lister_route \<Rightarrow> database \<Rightarrow> req_query \<Rightarrow> listing response option" where
  "route PendingApprovals = getPendingApprovals"
| "route Engineers = getEngineersList"
| "route Shops = getShopsList"
| "route AdsList = getAdsList"

fun sortByEnum :: "lister_route \<Rightarrow> string list" where
  "sortByEnum PendingApprovals = [''createdAt'', ''name'', ''price'', ''type'']"
| "sortByEnum Engineers = [''createdAt'', ''name'', ''experience'']"
| "sortByEnum Shops = [''createdAt'', ''name'', ''rating'']"
| "sortByEnum AdsList = [''createdAt'', ''title'']"

text \<open>
  An integer parameter, as documented: absent, so that the default applies, or a non-empty
  string of decimal digits; \<open>n\<close> is the integer it stands for.
\<close>

definition integerParam :: "string option \<Rightarrow> nat \<Rightarrow> nat \<Rightarrow> bool" where
  "integerParam p dflt n =
     (case p of
        None \<Rightarrow> n = dflt
      | Some s \<Rightarrow> s \<noteq> [] \<and> list_all (isDigitIn 10) s \<and> digitsVal 10 s = n)"

definition orderParam :: "string option \<Rightarrow> bool \<Rightarrow> bool" where
  "orderParam p ascending =
     (case p of
        None \<Rightarrow> \<not> ascending
      | Some s \<Rightarrow> (s = ''1'' \<and> ascending) \<or> (s = ''-1'' \<and> \<not> ascending))"

definition sortKey :: "req_query \<Rightarrow> string" where
  "sortKey q = (case q_sortBy q of None \<Rightarrow> ''createdAt'' | Some s \<Rightarrow> s)"

text \<open>
  A request within the documented domain of page, limit and sort order, whose sort key is a
  field name (any field name: the enumeration is not part of this predicate).
\<close>

definition documented :: "req_query \<Rightarrow> nat \<Rightarrow> nat \<Rightarrow> bool \<Rightarrow> bool" where
  "documented q p l ascending =
     (integerParam (q_page q) 1 p \<and> 1 \<le> p \<and> integerParam (q_limit q) 10 l \<and> 1 \<le> l \<and>
      plainKey (sortKey q) \<and> sortKey q \<noteq> ''__proto__'' \<and> orderParam (q_sortOrder q) ascending)"

text \<open>What each of the four handlers hands to the common body.\<close>

fun listedCollection :: "lister_route \<Rightarrow> collection" where
  "listedCollection PendingApprovals = Product"
| "listedCollection Engineers = Engineer"
| "listedCollection Shops = Shop"
| "listedCollection AdsList = Ads"

fun listedQuery :: "lister_route \<Rightarrow> req_query \<Rightarrow> query_filter" where
  "listedQuery PendingApprovals q = [(''status'', Eq (BStr ''pending''))]"
| "listedQuery Engineers q = optionalFlag ''isVerified'' (q_verified q)"
| "listedQuery Shops q = (''isActive'', Eq (BBool True)) # optionalFlag ''isVerified'' (q_verified q)"
| "listedQuery AdsList q = optionalFlag ''active'' (q_active q)"

fun populated :: "lister_route \<Rightarrow> (string \<times> string list) option" where
  "populated PendingApprovals = Some (''userId'', [''name'', ''phone'', ''email''])"
| "populated Engineers = Some (''addedBy'', [''name''])"
| "populated Shops = Some (''addedBy'', [''name''])"
| "populated AdsList = None"

fun excluded :: "lister_route \<Rightarrow> string list" where
  "excluded PendingApprovals = [''__v'']"
| "excluded Engineers = [''notes'', ''__v'']"
| "excluded Shops = [''notes'', ''verificationDocuments'', ''__v'']"
| "excluded AdsList = [''__v'']"

fun okMessage :: "lister_route \<Rightarrow> string" where
  "okMessage PendingApprovals = ''Pending approvals retrieved successfully''"
| "okMessage Engineers = ''Engineers list retrieved successfully''"
| "okMessage Shops = ''Shops list retrieved successfully''"
| "okMessage AdsList = ''Ads list retrieved successfully''"

fun errorMessage :: "lister_route \<Rightarrow> string" where
  "errorMessage PendingApprovals = ''Error retrieving pending approvals''"
| "errorMessage Engineers = ''Error retrieving engineers list''"
| "errorMessage Shops = ''Error retrieving shops list''"
| "errorMessage AdsList = ''Error retrieving ads list''"

definition listed :: "lister_route \<Rightarrow> database \<Rightarrow> req_query \<Rightarrow> doc list" where
  "listed e db q = filter (matches (listedQuery e q)) (documents db (listedCollection e))"

definition shape :: "lister_route \<Rightarrow> database \<Rightarrow> doc \<Rightarrow> outdoc" where
  "shape e db d = populate db (listedCollection e) (populated e) (select (excluded e) d)"

section \<open>Sample data\<close>

definition product_doc :: "nat \<Rightarrow> string \<Rightarrow> string \<Rightarrow> string \<Rightarrow> int \<Rightarrow> doc" where
  "product_doc i st ty gov created =
     [(''_id'', BId i), (''status'', BStr st), (''type'', BStr ty), (''governorate'', BStr gov),
      (''createdAt'', BDate created), (''updatedAt'', BDate created), (''userId'', BId 1),
      (''__v'', BNum 0)]"

definition user_doc :: "nat \<Rightarrow> string \<Rightarrow> doc" where
  "user_doc i name =
     [(''_id'', BId i), (''name'', BStr name), (''phone'', BStr ''777000000''),
      (''email'', BStr ''user@example.org''), (''password'', BStr ''secret''),
      (''createdAt'', BDate 0)]"

definition noFault :: "dbcall \<Rightarrow> string option" where
  "noFault c = None"

text \<open>Fifteen pending products, created at times 1 to 15, and one approved product.\<close>

definition db15 :: database where
  "db15 =
     \<lparr>documents =
        (\<lambda>c. if c = Product
              then map (\<lambda>i. product_doc i ''pending'' ''Panel'' ''Sanaa'' (int i)) [1..<16]
                   @ [product_doc 16 ''approved'' ''Battery'' ''Aden'' 16]
              else if c = User then [user_doc 1 ''Amal''] else []),
      fault = noFault\<rparr>"

definition page2limit10 :: req_query where
  "page2limit10 =
     \<lparr>q_page = Some ''2'', q_limit = Some ''10'', q_sortBy = None, q_sortOrder = None,
      q_verified = None, q_active = None\<rparr>"

definition paginationOf :: "listing response option \<Rightarrow> pagination option" where
  "paginationOf r = Option.bind r (\<lambda>x. map_option pagination (data x))"


text \<open>The boolean query parameter of an endpoint and the field it filters on.\<close>

fun flagParam :: "lister_route \<Rightarrow> req_query \<Rightarrow> string option" where
  "flagParam AdsList q = q_active q"
| "flagParam e q = q_verified q"

fun flagField :: "lister_route \<Rightarrow> string" where
  "flagField AdsList = ''active''"
| "flagField e = ''isVerified''"

text \<open>The documents an endpoint lists when its boolean parameter is absent.\<close>

fun baseDocs :: "lister_route \<Rightarrow> database \<Rightarrow> doc list" where
  "baseDocs PendingApprovals db =
     filter (\<lambda>d. field d ''status'' = BStr ''pending'') (documents db Product)"
| "baseDocs Engineers db = documents db Engineer"
| "baseDocs Shops db = filter (\<lambda>d. field d ''isActive'' = BBool True) (documents db Shop)"
| "baseDocs AdsList db = documents db Ads"

definition shop_doc :: "nat \<Rightarrow> string \<Rightarrow> bool \<Rightarrow> bool \<Rightarrow> int \<Rightarrow> doc" where
  "shop_doc i name isVerified isActive created =
     [(''_id'', BId i), (''name'', BStr name), (''isVerified'', BBool isVerified),
      (''isActive'', BBool isActive), (''addedBy'', BId 1), (''notes'', BStr ''internal''),
      (''verificationDocuments'', BStr ''licence.pdf''), (''createdAt'', BDate created),
      (''__v'', BNum 0)]"

definition engineer_doc :: "nat \<Rightarrow> string \<Rightarrow> bool \<Rightarrow> bool \<Rightarrow> string \<Rightarrow> int \<Rightarrow> doc" where
  "engineer_doc i name isVerified isActive notes created =
     [(''_id'', BId i), (''name'', BStr name), (''isVerified'', BBool isVerified),
      (''isActive'', BBool isActive), (''addedBy'', BId 1), (''notes'', BStr notes),
      (''createdAt'', BDate created), (''__v'', BNum 0)]"

definition ad_doc :: "nat \<Rightarrow> string \<Rightarrow> bool \<Rightarrow> int \<Rightarrow> doc" where
  "ad_doc i heading isActive created =
     [(''_id'', BId i), (''title'', BStr heading), (''active'', BBool isActive),
      (''createdAt'', BDate created), (''__v'', BNum 0)]"

text \<open>
  A small marketplace: three products, three engineers, four shops (one of them verified
  but inactive), two ads, one user.
\<close>

definition market :: database where
  "market =
     \<lparr>documents =
        (\<lambda>c. case c of
           Product \<Rightarrow>
             [product_doc 1 ''pending'' ''Panel'' ''Sanaa'' 10,
              product_doc 2 ''approved'' ''Panel'' ''Aden'' 20,
              product_doc 3 ''rejected'' ''Battery'' ''Sanaa'' 30]
         | Shop \<Rightarrow>
             [shop_doc 1 ''Sun'' True True 10, shop_doc 2 ''Moon'' True False 20,
              shop_doc 3 ''Star'' False True 30, shop_doc 4 ''Sky'' False False 40]
         | Engineer \<Rightarrow>
             [engineer_doc 1 ''Huda'' True True ''b: reliable'' 10,
              engineer_doc 2 ''Omar'' False True ''c: new'' 20,
              engineer_doc 3 ''Salma'' True False ''a: on leave'' 30]
         | Ads \<Rightarrow> [ad_doc 1 ''Sale'' True 10, ad_doc 2 ''Old'' False 20]
         | User \<Rightarrow> [user_doc 1 ''Amal'']),
      fault = noFault\<rparr>"

definition noParams :: req_query where
  "noParams =
     \<lparr>q_page = None, q_limit = None, q_sortBy = None, q_sortOrder = None,
      q_verified = None, q_active = None\<rparr>"

definition itemIds :: "listing response option \<Rightarrow> outval option list option" where
  "itemIds r =
     Option.bind r (\<lambda>x. map_option (\<lambda>d. map (\<lambda>i. map_of i ''_id'') (items d)) (data x))"

definition verifiedOnly :: req_query where
  "verifiedOnly = noParams\<lparr>q_verified := Some ''true''\<rparr>"

definition activeOnly :: req_query where
  "activeOnly = noParams\<lparr>q_active := Some ''true''\<rparr>"

definition totalOf :: "listing response option \<Rightarrow> nat option" where
  "totalOf r = map_option totalItems (paginationOf r)"

definition cardCounts :: "cards response option \<Rightarrow> (nat \<times> nat \<times> nat \<times> nat) option" where
  "cardCounts r =
     Option.bind r (\<lambda>x. map_option (\<lambda>cs. (count (pendingApprovalsCard cs),
       count (totalEngineersCard cs), count (verifiedShopsCard cs), count (activeAdsCard cs)))
       (data x))"

section \<open>What the catch clause guarantees\<close>




section \<open>Rates of a product collection\<close>

text \<open>
  The three counts the dashboard takes from the product collection, and the sum of the two
  rates it derives from them.
\<close>

definition statusCount :: "string \<Rightarrow> doc list \<Rightarrow> nat" where
  "statusCount s ps = length (filter (matches [(''status'', Eq (BStr s))]) ps)"

definition ratesSum :: "doc list \<Rightarrow> rat" where
  "ratesSum ps =
     parseFloat (approvalRate (statusCount ''approved'' ps) (length ps))
       + parseFloat (rejectionRate (statusCount ''rejected'' ps) (length ps))"

text \<open>Sixteen products: one approved, fifteen rejected.\<close>

definition sixteenProducts :: "doc list" where
  "sixteenProducts =
     product_doc 1 ''approved'' ''Panel'' ''Sanaa'' 1
       # map (\<lambda>i. product_doc i ''rejected'' ''Panel'' ''Sanaa'' (int i)) [2..<17]"

text \<open>Two thousand approved products and one pending product.\<close>

definition nearlyAllApproved :: "doc list" where
  "nearlyAllApproved =
     replicate 2000 (product_doc 1 ''approved'' ''Panel'' ''Sanaa'' 1)
       @ [product_doc 2 ''pending'' ''Panel'' ''Sanaa'' 2]"


definition overallOf :: "dashboard response option \<Rightarrow> rat option" where
  "overallOf r = Option.bind r (\<lambda>x. map_option overallApprovalRate (data x))"


section \<open>The scenario of the category breakdown\<close>



definition sortByNotes :: req_query where
  "sortByNotes = noParams\<lparr>q_sortBy := Some ''notes'', q_sortOrder := Some ''1''\<rparr>"

definition sortByCreated :: req_query where
  "sortByCreated = noParams\<lparr>q_sortOrder := Some ''1''\<rparr>"

definition issuedSort :: "'a comp \<Rightarrow> (string \<times> jsnum) list list" where
  "issuedSort m = concat (map (\<lambda>c. case c of Find q \<Rightarrow> [sortObj q] | _ \<Rightarrow> []) (fst m))"

section \<open>Digit strings under the two coercions\<close>

lemma startsWith_all:
  assumes "startsWith s p" and "list_all P s"
  shows "list_all P p"
proof -
  from assms(1) have "p = take (length p) s"
    by (simp add: startsWith_def)
  then have "set p \<subseteq> set s"
    by (metis set_take_subset)
  with assms(2) show ?thesis
    by (auto simp: list_all_iff)
qed

lemma no_prefix: "list_all P s \<Longrightarrow> \<not> list_all P p \<Longrightarrow> \<not> startsWith s p"
  using startsWith_all by blast

lemma digit_not_white: "isDigitIn 10 c \<Longrightarrow> \<not> isWhite c"
  by (auto simp: isDigitIn_def digitVal_def isWhite_def Let_def split: if_splits)

lemma trim_digits:
  assumes "s \<noteq> []" "list_all (isDigitIn 10) s"
  shows "trim s = s" "trimStart s = s"
proof -
  from assms have h: "\<not> isWhite (hd s)"
    by (cases s) (auto simp: digit_not_white)
  from assms have l: "\<not> isWhite (last s)"
    by (metis digit_not_white last_in_set list_all_iff)
  from assms h have d1: "dropWhile isWhite s = s"
    by (cases s) auto
  from assms l have d2: "dropWhile isWhite (rev s) = rev s"
    by (cases "rev s") (auto simp: hd_rev[symmetric] dest: arg_cong[where f=hd])
  show "trim s = s"
    by (simp add: trim_def d1 d2)
  show "trimStart s = s"
    by (simp add: trimStart_def d1)
qed

lemma digits_no_prefix:
  assumes "list_all (isDigitIn 10) s"
  shows "\<not> startsWith s ''-''" "\<not> startsWith s ''+''"
    "\<not> startsWith s ''0x''" "\<not> startsWith s ''0X''"
    "\<not> startsWith s ''0o''" "\<not> startsWith s ''0O''"
    "\<not> startsWith s ''0b''" "\<not> startsWith s ''0B''"
    "\<not> startsWith s ''.''" "\<not> startsWith s ''e''" "\<not> startsWith s ''E''"
  by (rule no_prefix[OF assms], simp add: isDigitIn_def digitVal_def)+

lemma digits_not_Infinity: "list_all (isDigitIn 10) s \<Longrightarrow> s \<noteq> ''Infinity''"
  by (auto simp: isDigitIn_def digitVal_def)

lemma takeWhile_all: "list_all P s \<Longrightarrow> takeWhile P s = s"
  by (induction s) auto

lemma dropWhile_all: "list_all P s \<Longrightarrow> dropWhile P s = []"
  by (induction s) auto

lemma stringToNumber_digits:
  assumes "s \<noteq> []" "list_all (isDigitIn 10) s"
  shows "stringToNumber s = Fin (of_nat (digitsVal 10 s))"
proof -
  have e: "exponentPart [] = Some 0"
    by (simp add: exponentPart_def)
  have d: "\<not> startsWith [] ''.''"
    by (simp add: startsWith_def)
  have u: "unsignedDecimal s = Some (of_nat (digitsVal 10 s))"
    using assms(1)
    by (simp add: unsignedDecimal_def Let_def takeWhile_all[OF assms(2)]
        dropWhile_all[OF assms(2)] e d pow10_def digitsVal_def)
  show ?thesis
    using assms(1)
    by (simp add: stringToNumber_def Let_def trim_digits(1)[OF assms]
        digits_no_prefix[OF assms(2)] digits_not_Infinity[OF assms(2)] u)
qed

lemma parseInt_digits:
  assumes "s \<noteq> []" "list_all (isDigitIn 10) s"
  shows "parseInt_string s = Fin (of_nat (digitsVal 10 s))"
  using assms(1)
  by (simp add: parseInt_string_def Let_def trim_digits(2)[OF assms]
      digits_no_prefix[OF assms(2)] takeWhile_all[OF assms(2)])

lemma integerParam_coerce:
  assumes "integerParam p dflt n"
  shows "toNumber (withDefault p (JNum (int dflt))) = Fin (of_nat n)"
    and "parseInt (withDefault p (JNum (int dflt))) = Fin (of_nat n)"
  using assms
  by (auto simp: integerParam_def stringToNumber_digits parseInt_digits split: option.splits)

lemma orderParam_coerce:
  assumes "orderParam p ascending"
  shows "parseInt (withDefault p (JNum (- 1))) = Fin (if ascending then 1 else - 1)"
proof (cases p)
  case None
  with assms show ?thesis
    by (simp add: orderParam_def)
next
  case (Some s)
  have a: "parseInt_string ''1'' = Fin 1"
    by code_simp
  have b: "parseInt_string ''-1'' = Fin (- 1)"
    by code_simp
  from Some assms show ?thesis
    by (auto simp: orderParam_def a b)
qed

section \<open>The comparison order and sorting\<close>

lemma of_char_inj: "(of_char x :: nat) = of_char y \<Longrightarrow> x = y"
  by simp

lemma str_le_total: "str_le a b \<or> str_le b a"
proof (induction a b rule: str_le.induct)
  case (1 uu)
  then show ?case by simp
next
  case (2 x xs)
  then show ?case by simp
next
  case (3 x xs y ys)
  show ?case
  proof (cases "(of_char x :: nat) = of_char y")
    case True
    then have "x = y" by (rule of_char_inj)
    with 3 show ?thesis by auto
  next
    case False
    then have "(of_char x :: nat) < of_char y \<or> (of_char y :: nat) < of_char x"
      by linarith
    then show ?thesis by auto
  qed
qed

lemma str_le_trans: "str_le a b \<Longrightarrow> str_le b c \<Longrightarrow> str_le a c"
proof (induction a b arbitrary: c rule: str_le.induct)
  case (1 uu)
  then show ?case by simp
next
  case (2 x xs)
  then show ?case by simp
next
  case (3 x xs y ys)
  show ?case
  proof (cases c)
    case Nil
    with 3 show ?thesis by simp
  next
    case (Cons z zs)
    with 3 show ?thesis by (auto intro: less_trans)
  qed
qed


lemma rank_cases:
  "bson_rank b = 1 \<Longrightarrow> b = BNull"
  "bson_rank b = 2 \<Longrightarrow> \<exists>y. b = BNum y"
  "bson_rank b = 3 \<Longrightarrow> \<exists>y. b = BStr y"
  "bson_rank b = 7 \<Longrightarrow> \<exists>y. b = BId y"
  "bson_rank b = 8 \<Longrightarrow> \<exists>y. b = BBool y"
  "bson_rank b = 9 \<Longrightarrow> \<exists>y. b = BDate y"
  by (cases b; simp)+

lemma bson_le_rank: "bson_le a b \<Longrightarrow> bson_rank a \<le> bson_rank b"
  by (cases a; cases b; simp)

lemma bson_le_diff_rank: "bson_rank a \<noteq> bson_rank b \<Longrightarrow> bson_le a b = (bson_rank a \<le> bson_rank b)"
  by (cases a; cases b; simp)

lemma bson_le_total: "bson_le a b \<or> bson_le b a"
proof (cases "bson_rank a = bson_rank b")
  case True
  show ?thesis
  proof (cases a)
    case BNull
    with True rank_cases(1)[of b] show ?thesis by simp
  next
    case (BBool x)
    with True rank_cases(5)[of b] show ?thesis by auto
  next
    case (BNum x)
    with True rank_cases(2)[of b] show ?thesis by auto
  next
    case (BStr x)
    with True rank_cases(3)[of b] obtain y where "b = BStr y" by auto
    with BStr str_le_total[of x y] show ?thesis by simp
  next
    case (BDate x)
    with True rank_cases(6)[of b] show ?thesis by auto
  next
    case (BId x)
    with True rank_cases(4)[of b] show ?thesis by auto
  qed
next
  case False
  then show ?thesis
    by (simp add: bson_le_diff_rank) linarith
qed

lemma bson_le_trans:
  assumes "bson_le a b" and "bson_le b c"
  shows "bson_le a c"
proof (cases "bson_rank a = bson_rank b \<and> bson_rank b = bson_rank c")
  case True
  then have ab: "bson_rank b = bson_rank a" and bc: "bson_rank c = bson_rank a" by auto
  show ?thesis
  proof (cases a)
    case BNull
    with ab bc rank_cases(1)[of b] rank_cases(1)[of c] show ?thesis by simp
  next
    case (BBool x)
    with ab bc rank_cases(5)[of b] rank_cases(5)[of c] assms show ?thesis by auto
  next
    case (BNum x)
    with ab bc rank_cases(2)[of b] rank_cases(2)[of c] assms show ?thesis by auto
  next
    case (BStr x)
    with ab bc rank_cases(3)[of b] rank_cases(3)[of c] obtain y z
      where "b = BStr y" "c = BStr z" by auto
    with BStr assms str_le_trans[of x y z] show ?thesis by simp
  next
    case (BDate x)
    with ab bc rank_cases(6)[of b] rank_cases(6)[of c] assms show ?thesis by auto
  next
    case (BId x)
    with ab bc rank_cases(4)[of b] rank_cases(4)[of c] assms show ?thesis by auto
  qed
next
  case False
  with bson_le_rank[OF assms(1)] bson_le_rank[OF assms(2)]
  have "bson_rank a < bson_rank c" by linarith
  then show ?thesis by (simp add: bson_le_diff_rank)
qed

lemma sort_by_Cons: "sort_by le (x # xs) = insert_by le x (sort_by le xs)"
  by (simp add: sort_by_def)

lemma sort_by_Nil: "sort_by le [] = []"
  by (simp add: sort_by_def)

lemma length_insert_by: "length (insert_by le x xs) = Suc (length xs)"
  by (induction xs) auto

lemma length_sort_by: "length (sort_by le xs) = length xs"
  by (induction xs) (auto simp: sort_by_Nil sort_by_Cons length_insert_by)

lemma set_insert_by: "set (insert_by le x xs) = insert x (set xs)"
  by (induction xs) auto

lemma set_sort_by: "set (sort_by le xs) = set xs"
  by (induction xs) (auto simp: sort_by_Nil sort_by_Cons set_insert_by)

lemma count_insert_by: "count_list (insert_by le x xs) y = count_list (x # xs) y"
  by (induction xs) auto

lemma count_sort_by: "count_list (sort_by le xs) y = count_list xs y"
  by (induction xs) (auto simp: sort_by_Nil sort_by_Cons count_insert_by)

lemma sorted_insert_by:
  assumes tot: "\<And>a b. le a b \<or> le b a"
    and tr: "\<And>a b c. le a b \<Longrightarrow> le b c \<Longrightarrow> le a c"
    and srt: "sorted_wrt le xs"
  shows "sorted_wrt le (insert_by le x xs)"
  using srt
proof (induction xs)
  case Nil
  then show ?case by simp
next
  case (Cons y ys)
  show ?case
  proof (cases "le x y")
    case True
    have "\<forall>z\<in>set ys. le x z"
    proof
      fix z assume "z \<in> set ys"
      with Cons.prems have "le y z" by simp
      with True show "le x z" by (rule tr)
    qed
    with True Cons.prems show ?thesis by simp
  next
    case False
    with tot[of x y] have "le y x" by simp
    with Cons False show ?thesis by (simp add: set_insert_by)
  qed
qed

lemma sorted_sort_by:
  assumes tot: "\<And>a b. le a b \<or> le b a"
    and tr: "\<And>a b c. le a b \<Longrightarrow> le b c \<Longrightarrow> le a c"
  shows "sorted_wrt le (sort_by le xs)"
proof (induction xs)
  case Nil
  then show ?case by (simp add: sort_by_Nil)
next
  case (Cons x xs)
  have "sorted_wrt le (insert_by le x (sort_by le xs))"
    using tot tr Cons by (rule sorted_insert_by)
  then show ?case
    by (simp only: sort_by_Cons)
qed

lemma sort_docs_sorted:
  "sorted_wrt (\<lambda>a b. if ascending then bson_le (field a key) (field b key)
                     else bson_le (field b key) (field a key))
     (sort_docs key ascending ds)"
proof (cases ascending)
  case True
  have "sorted_wrt (\<lambda>a b. bson_le (field a key) (field b key))
          (sort_by (\<lambda>a b. bson_le (field a key) (field b key)) ds)"
    by (rule sorted_sort_by) (rule bson_le_total, erule bson_le_trans, assumption)
  with True show ?thesis
    by (simp add: sort_docs_def)
next
  case False
  have "sorted_wrt (\<lambda>a b. bson_le (field b key) (field a key))
          (sort_by (\<lambda>a b. bson_le (field b key) (field a key)) ds)"
    by (rule sorted_sort_by) (rule bson_le_total, erule bson_le_trans[rotated], assumption)
  with False show ?thesis
    by (simp add: sort_docs_def)
qed

lemma length_sort_docs: "length (sort_docs key ascending ds) = length ds"
  by (simp add: sort_docs_def length_sort_by)

lemma set_sort_docs: "set (sort_docs key ascending ds) = set ds"
  by (simp add: sort_docs_def set_sort_by)

lemma count_sort_docs: "count_list (sort_docs key ascending ds) d = count_list ds d"
  by (simp add: sort_docs_def count_sort_by)

section \<open>Awaited calls\<close>

lemma await_Return: "snd m = Return a \<Longrightarrow> await m f = (fst m @ fst (f a), snd (f a))"
  by (simp add: await_def)

lemma await_Raise: "snd m = Raise e \<Longrightarrow> await m f = (fst m, Raise e)"
  by (simp add: await_def)

lemma snd_await_Return:
  "snd (await m f) = Return b \<longleftrightarrow> (\<exists>a. snd m = Return a \<and> snd (f a) = Return b)"
  by (cases "snd m") (simp_all add: await_def)

lemma countDocuments_ok:
  "fault db (CountDocuments c f) = None \<Longrightarrow>
   countDocuments db c f =
     ([CountDocuments c f], Return (length (filter (matches f) (documents db c))))"
  by (simp add: countDocuments_def call_def)

lemma snd_countDocuments_Return:
  "snd (countDocuments db c f) = Return n \<longleftrightarrow>
   fault db (CountDocuments c f) = None \<and> n = length (filter (matches f) (documents db c))"
  by (auto simp: countDocuments_def call_def split: option.splits)

lemma respond_data:
  assumes "respond okm errm body = Some r" and "data r = Some d"
  shows "snd body = Return d" and "httpStatus r = 200" and "status r = ''success''"
    and "error r = None"
  using assms by (auto simp: respond_def split: result.splits)

lemma respond_Return:
  "snd body = Return d \<Longrightarrow>
   respond okm errm body =
     Some \<lparr>httpStatus = 200, status = ''success'', message = okm, data = Some d, error = None\<rparr>"
  by (simp add: respond_def)

lemma paginationOf_Some:
  "paginationOf x = Some p \<longleftrightarrow> (\<exists>r d. x = Some r \<and> data r = Some d \<and> pagination d = p)"
  by (cases x) (auto simp: paginationOf_def)

section \<open>The common body of the listers\<close>

lemma route_lister:
  "route e db q =
     respond (okMessage e) (errorMessage e)
       (lister db q (listedCollection e) (listedQuery e q) (populated e) (excluded e))"
  by (cases e)
    (simp_all add: getPendingApprovals_def getPendingApprovals_try_def
      getEngineersList_def getEngineersList_try_def getShopsList_def getShopsList_try_def
      getAdsList_def getAdsList_try_def lister_def lister_find_def paginate_def Let_def)

lemma skip_documented:
  assumes "1 \<le> p"
  shows "js_mul (js_sub (Fin (of_nat p)) (Fin 1)) (Fin (of_nat l)) = Fin (of_nat ((p - 1) * l))"
  using assms by (simp add: of_nat_diff)

lemma nat_of_jsnum_of_nat: "nat_of_jsnum (Fin (of_nat n)) = Some n"
  by simp

lemma lister_documented:
  assumes d: "documented q p l ascending"
    and f1: "fault db (Find (lister_find q c query pop ex)) = None"
    and f2: "fault db (CountDocuments c query) = None"
  shows "lister db q c query pop ex =
      ([Find (lister_find q c query pop ex), CountDocuments c query],
       Return
         \<lparr>items =
            map (\<lambda>d. populate db c pop (select ex d))
              (take l (drop ((p - 1) * l)
                 (sort_docs (sortKey q) ascending (filter (matches query) (documents db c))))),
          pagination =
            \<lparr>currentPage = Fin (of_nat p),
             totalPages =
               Fin (of_int \<lceil>of_nat (length (filter (matches query) (documents db c)))
                             / (of_nat l :: rat)\<rceil>),
             totalItems = length (filter (matches query) (documents db c)),
             itemsPerPage = Fin (of_nat l)\<rparr>\<rparr>)"
proof -
  from d have pg: "integerParam (q_page q) 1 p" and p1: "1 \<le> p"
    and lm: "integerParam (q_limit q) 10 l" and l1: "1 \<le> l"
    and k: "plainKey (sortKey q)" "sortKey q \<noteq> ''__proto__''"
    and so: "orderParam (q_sortOrder q) ascending"
    by (simp_all add: documented_def)
  note c1 = integerParam_coerce[OF pg, simplified] integerParam_coerce[OF lm, simplified]
  have srt: "applySort (sortObj (lister_find q c query pop ex)) ds
      = Some (sort_docs (sortKey q) ascending ds)" for ds
    using k orderParam_coerce[OF so]
    by (simp add: lister_find_def sortObject_def applySort_def sortKey_def)
  have sk: "nat_of_jsnum (skipArg (lister_find q c query pop ex)) = Some ((p - 1) * l)"
    unfolding lister_find_def using c1 skip_documented[OF p1, of l]
    by (simp del: nat_of_jsnum.simps js_mul.simps js_sub.simps of_nat_mult
        add: nat_of_jsnum_of_nat)
  have li: "nat_of_jsnum (limitArg (lister_find q c query pop ex)) = Some l"
    unfolding lister_find_def using c1
    by (simp del: nat_of_jsnum.simps add: nat_of_jsnum_of_nat)
  have fd: "find_docs db (lister_find q c query pop ex) =
      ([Find (lister_find q c query pop ex)],
       Return (map (\<lambda>d. populate db c pop (select ex d))
                 (take l (drop ((p - 1) * l)
                    (sort_docs (sortKey q) ascending
                       (filter (matches query) (documents db c)))))))"
    using f1 l1 by (simp add: find_docs_def call_def srt sk li) (simp add: lister_find_def)
  have ne: "rat_of_nat l \<noteq> 0"
    using l1 by simp
  show ?thesis
    using c1 ne
    by (simp add: lister_def await_Return fd countDocuments_ok[OF f2] returns_def paginate_def)
qed

lemma lister_Return:
  assumes "snd (lister db q c query pop ex) = Return d"
  shows "pagination d =
           paginate (withDefault (q_page q) (JNum 1)) (withDefault (q_limit q) (JNum 10))
             (length (filter (matches query) (documents db c)))"
    and "\<exists>ordered s l. applySort (sortObj (lister_find q c query pop ex))
                          (filter (matches query) (documents db c)) = Some ordered \<and>
            nat_of_jsnum (skipArg (lister_find q c query pop ex)) = Some s \<and>
            nat_of_jsnum (limitArg (lister_find q c query pop ex)) = Some l \<and> 1 \<le> l \<and>
            items d = map (\<lambda>d. populate db c pop (select ex d)) (take l (drop s ordered))"
proof -
  from assms obtain found n where
    a: "snd (find_docs db (lister_find q c query pop ex)) = Return found"
    and b: "snd (countDocuments db c query) = Return n"
    and c: "d = \<lparr>items = found,
                 pagination = paginate (withDefault (q_page q) (JNum 1))
                                (withDefault (q_limit q) (JNum 10)) n\<rparr>"
    by (auto simp: lister_def snd_await_Return returns_def)
  from b c show "pagination d =
           paginate (withDefault (q_page q) (JNum 1)) (withDefault (q_limit q) (JNum 10))
             (length (filter (matches query) (documents db c)))"
    by (simp add: snd_countDocuments_Return)
  from a c show "\<exists>ordered s l. applySort (sortObj (lister_find q c query pop ex))
                          (filter (matches query) (documents db c)) = Some ordered \<and>
            nat_of_jsnum (skipArg (lister_find q c query pop ex)) = Some s \<and>
            nat_of_jsnum (limitArg (lister_find q c query pop ex)) = Some l \<and> 1 \<le> l \<and>
            items d = map (\<lambda>d. populate db c pop (select ex d)) (take l (drop s ordered))"
    by (auto simp: find_docs_def call_def lister_find_def
        split: option.splits if_splits)
qed

section \<open>What a lister returns\<close>

lemma applySort_set: "applySort s ds = Some ordered \<Longrightarrow> set ordered = set ds"
  by (auto simp: applySort_def set_sort_docs split: list.splits if_splits)

lemma route_documented_ok:
  assumes "documented q p l ascending" and "\<forall>c. fault db c = None"
  shows "\<exists>r d. route e db q = Some r \<and> httpStatus r = 200 \<and> data r = Some d"
proof -
  from assms have "\<exists>d. snd (lister db q (listedCollection e) (listedQuery e q) (populated e)
      (excluded e)) = Return d"
    using lister_documented[of q p l ascending db] by simp
  then show ?thesis
    by (auto simp: route_lister respond_Return)
qed

lemma shape_eq:
  "shape e db = (\<lambda>d. populate db (listedCollection e) (populated e) (select (excluded e) d))"
  by (rule ext) (simp add: shape_def)

lemma route_data:
  assumes "route e db q = Some r" and "data r = Some d"
  shows "totalItems (pagination d) = length (listed e db q)"
    and "set (items d) \<subseteq> shape e db ` set (listed e db q)"
proof -
  from assms have "respond (okMessage e) (errorMessage e)
      (lister db q (listedCollection e) (listedQuery e q) (populated e) (excluded e)) = Some r"
    by (simp add: route_lister)
  from this assms(2)
  have ret: "snd (lister db q (listedCollection e) (listedQuery e q) (populated e) (excluded e))
      = Return d"
    by (rule respond_data(1))
  from lister_Return(1)[OF ret] show "totalItems (pagination d) = length (listed e db q)"
    by (simp add: paginate_def listed_def)
  from lister_Return(2)[OF ret] obtain ordered s l where
    o: "applySort (sortObj (lister_find q (listedCollection e) (listedQuery e q) (populated e)
          (excluded e))) (listed e db q) = Some ordered"
    and i: "items d = map (shape e db) (take l (drop s ordered))"
    by (auto simp: listed_def shape_eq)
  have "set (take l (drop s ordered)) \<subseteq> set ordered"
    by (meson order_trans set_drop_subset set_take_subset)
  with applySort_set[OF o] i show "set (items d) \<subseteq> shape e db ` set (listed e db q)"
    by auto
qed

lemma map_of_select:
  "map_of (select ex d) k = (if k \<in> set ex then None else map_of d k)"
  by (induction d) (auto simp: select_def)

lemma map_of_mapped:
  "map_of (map (\<lambda>(k, v). (k, g k v)) d) k = map_option (g k) (map_of d k)"
  by (induction d) auto

lemma map_of_populate:
  assumes "\<forall>path kept. p = Some (path, kept) \<longrightarrow> k \<noteq> path"
  shows "map_of (populate db c p d) k = map_option Val (map_of d k)"
proof (cases p)
  case None
  then show ?thesis
    by (simp add: populate_def map_of_mapped)
next
  case (Some a)
  obtain path kept where a: "a = (path, kept)"
    by (cases a)
  with Some assms have ne: "k \<noteq> path"
    by simp
  have "map_of (map (\<lambda>(k, v). (k, if k = path
            then resolve (documents db (refModel c path)) kept v else Val v)) d) k
      = map_option (\<lambda>v. if k = path
            then resolve (documents db (refModel c path)) kept v else Val v) (map_of d k)"
    by (rule map_of_mapped)
  with ne Some a show ?thesis
    by (simp add: populate_def)
qed

lemma shape_keeps:
  assumes "k \<notin> set (excluded e)"
    and "\<forall>path kept. populated e = Some (path, kept) \<longrightarrow> k \<noteq> path"
  shows "map_of (shape e db d) k = map_option Val (map_of d k)"
  using assms by (simp add: shape_def map_of_populate map_of_select)

lemma field_bool: "field d k = BBool b \<longleftrightarrow> map_of d k = Some (BBool b)"
  by (auto simp: field_def split: option.splits)

lemma shape_keeps_flag:
  assumes "field d k = BBool b" and "k \<in> {''isActive'', ''isVerified'', ''active''}"
  shows "map_of (shape e db d) k = Some (Val (BBool b))"
proof -
  from assms(2) have "k \<notin> set (excluded e)"
    and "\<forall>path kept. populated e = Some (path, kept) \<longrightarrow> k \<noteq> path"
    by (cases e; auto)+
  from shape_keeps[OF this] assms(1) show ?thesis
    by (simp add: field_bool)
qed

lemma matches_eq: "matches f = (\<lambda>d. list_all (holds d) f)"
  by (rule ext) (simp add: matches_def)

lemma listed_flag:
  "listed e db q =
     (if e = PendingApprovals then baseDocs e db
      else case flagParam e q of
             None \<Rightarrow> baseDocs e db
           | Some s \<Rightarrow> filter (\<lambda>d. field d (flagField e) = BBool (s = ''true'')) (baseDocs e db))"
  by (cases e) (auto simp: listed_def optionalFlag_def matches_eq split: option.splits)

lemma totalOf_Some:
  "totalOf x = Some n \<longleftrightarrow>
     (\<exists>r d. x = Some r \<and> data r = Some d \<and> totalItems (pagination d) = n)"
  by (auto simp: totalOf_def paginationOf_Some)

lemma itemIds_Some:
  "itemIds x = Some ids \<longleftrightarrow>
     (\<exists>r d. x = Some r \<and> data r = Some d \<and> map (\<lambda>i. map_of i ''_id'') (items d) = ids)"
  by (cases x) (auto simp: itemIds_def)

section \<open>Pagination\<close>

lemma paginate_integer:
  assumes "integerParam lm 10 l" and "1 \<le> l"
  shows "paginate pg (withDefault lm (JNum 10)) n =
           \<lparr>currentPage = parseInt pg,
            totalPages = Fin (of_int \<lceil>rat_of_nat n / rat_of_nat l\<rceil>),
            totalItems = n,
            itemsPerPage = Fin (of_nat l)\<rparr>"
  using integerParam_coerce[OF assms(1), simplified] assms(2)
  by (simp add: paginate_def)







lemma applySort_length: "applySort s ds = Some ordered \<Longrightarrow> length ordered = length ds"
  by (auto simp: applySort_def length_sort_docs split: list.splits if_splits)

lemma route_slice:
  assumes r: "route e db q = Some r" "data r = Some d"
    and pg: "integerParam (q_page q) 1 p" "1 \<le> p"
    and lm: "integerParam (q_limit q) 10 l" "1 \<le> l"
  shows "\<exists>ordered.
           applySort (sortObject (sortKey q) (parseInt (withDefault (q_sortOrder q) (JNum (- 1)))))
             (listed e db q) = Some ordered \<and>
           items d = map (shape e db) (take l (drop ((p - 1) * l) ordered))"
proof -
  let ?fq = "lister_find q (listedCollection e) (listedQuery e q) (populated e) (excluded e)"
  from r have "respond (okMessage e) (errorMessage e)
      (lister db q (listedCollection e) (listedQuery e q) (populated e) (excluded e)) = Some r"
    by (simp add: route_lister)
  from this r(2)
  have "snd (lister db q (listedCollection e) (listedQuery e q) (populated e) (excluded e))
      = Return d"
    by (rule respond_data(1))
  from lister_Return(2)[OF this] obtain ordered s l' where
    o: "applySort (sortObj ?fq) (listed e db q) = Some ordered"
    and s: "nat_of_jsnum (skipArg ?fq) = Some s"
    and l': "nat_of_jsnum (limitArg ?fq) = Some l'"
    and i: "items d = map (shape e db) (take l' (drop s ordered))"
    by (auto simp: listed_def shape_eq)
  note c1 = integerParam_coerce[OF pg(1), simplified] integerParam_coerce[OF lm(1), simplified]
  have "nat_of_jsnum (skipArg ?fq) = Some ((p - 1) * l)"
    unfolding lister_find_def using c1 skip_documented[OF pg(2), of l]
    by (simp del: nat_of_jsnum.simps js_mul.simps js_sub.simps of_nat_mult
        add: nat_of_jsnum_of_nat)
  with s have s': "s = (p - 1) * l"
    by simp
  have "nat_of_jsnum (limitArg ?fq) = Some l"
    unfolding lister_find_def using c1
    by (simp del: nat_of_jsnum.simps add: nat_of_jsnum_of_nat)
  with l' have l'': "l' = l"
    by simp
  have so: "sortObj ?fq
      = sortObject (sortKey q) (parseInt (withDefault (q_sortOrder q) (JNum (- 1))))"
    by (simp add: lister_find_def sortKey_def)
  from o i s' l'' so show ?thesis
    by auto
qed

lemma applySort_documented:
  assumes "plainKey (sortKey q)" and "sortKey q \<noteq> ''__proto__''"
    and "orderParam (q_sortOrder q) ascending"
  shows "applySort (sortObject (sortKey q) (parseInt (withDefault (q_sortOrder q) (JNum (- 1)))))
           ds = Some (sort_docs (sortKey q) ascending ds)"
  using assms(1,2) orderParam_coerce[OF assms(3)]
  by (simp add: sortObject_def applySort_def)

text \<open>
  C2.  A call with integer page \<open>p \<ge> 1\<close> and integer limit \<open>l \<ge> 1\<close> that succeeds returns
  the documents of the filtered, sorted sequence from position \<open>(p - 1) * l\<close> on, at most
  \<open>l\<close> of them; with page 2, limit 10 and fifteen items it reports two pages and returns
  the eleventh to the fifteenth item, and nothing else.  With a field name as sort key and
  a sort order of \<open>1\<close> or \<open>-1\<close> (or none), on a database that answers every call, the call
  does succeed, and the sequence is the filtered documents sorted by that key in that
  direction.
\<close>

theorem lister_page_slice:
  assumes "integerParam (q_page q) 1 p" and "1 \<le> p"
    and "integerParam (q_limit q) 10 l" and "1 \<le> l"
  shows "(\<forall>r d. route e db q = Some r \<and> data r = Some d \<longrightarrow>
           (\<exists>ordered.
              applySort (sortObject (sortKey q)
                           (parseInt (withDefault (q_sortOrder q) (JNum (- 1)))))
                (listed e db q) = Some ordered \<and>
              items d = map (shape e db) (take l (drop ((p - 1) * l) ordered)) \<and>
              length (items d) \<le> l \<and>
              totalItems (pagination d) = length ordered \<and>
              (p = 2 \<and> l = 10 \<and> totalItems (pagination d) = 15 \<longrightarrow>
                 totalPages (pagination d) = Fin 2 \<and>
                 items d = map (shape e db) (drop 10 ordered) \<and>
                 length (items d) = 5)))
       \<and> (\<forall>ascending.
            plainKey (sortKey q) \<and> sortKey q \<noteq> ''__proto__'' \<and>
            orderParam (q_sortOrder q) ascending \<and> (\<forall>c. fault db c = None) \<longrightarrow>
            (\<exists>r d. route e db q = Some r \<and> httpStatus r = 200 \<and> data r = Some d) \<and>
            applySort (sortObject (sortKey q)
                         (parseInt (withDefault (q_sortOrder q) (JNum (- 1)))))
              (listed e db q) = Some (sort_docs (sortKey q) ascending (listed e db q)))"
proof (intro conjI allI impI)
  fix r d
  assume a: "route e db q = Some r \<and> data r = Some d"
  then have r: "route e db q = Some r" "data r = Some d"
    by simp_all
  from route_slice[OF r assms] obtain ordered where
    o: "applySort (sortObject (sortKey q)
                     (parseInt (withDefault (q_sortOrder q) (JNum (- 1)))))
          (listed e db q) = Some ordered"
    and i: "items d = map (shape e db) (take l (drop ((p - 1) * l) ordered))"
    by blast
  from route_data(1)[OF r] applySort_length[OF o]
  have t: "totalItems (pagination d) = length ordered"
    by simp
  from i have len: "length (items d) \<le> l"
    by simp
  from r have "respond (okMessage e) (errorMessage e)
      (lister db q (listedCollection e) (listedQuery e q) (populated e) (excluded e)) = Some r"
    by (simp add: route_lister)
  from this r(2)
  have "snd (lister db q (listedCollection e) (listedQuery e q) (populated e) (excluded e))
      = Return d"
    by (rule respond_data(1))
  from lister_Return(1)[OF this]
  have pgn: "pagination d =
      \<lparr>currentPage = parseInt (withDefault (q_page q) (JNum 1)),
       totalPages = Fin (of_int \<lceil>rat_of_nat (length (listed e db q)) / rat_of_nat l\<rceil>),
       totalItems = length (listed e db q),
       itemsPerPage = Fin (of_nat l)\<rparr>"
    by (simp add: paginate_integer[OF assms(3,4)] listed_def)
  have scen: "p = 2 \<and> l = 10 \<and> totalItems (pagination d) = 15 \<longrightarrow>
       totalPages (pagination d) = Fin 2 \<and>
       items d = map (shape e db) (drop 10 ordered) \<and> length (items d) = 5"
  proof
    assume h: "p = 2 \<and> l = 10 \<and> totalItems (pagination d) = 15"
    with t have n: "length ordered = 15"
      by simp
    from h have n': "length (listed e db q) = 15"
      by (simp add: pgn)
    have ce: "\<lceil>(15::rat) / 10\<rceil> = 2"
      by (simp add: ceiling_eq_iff)
    from h n' ce have "totalPages (pagination d) = Fin 2"
      by (simp add: pgn)
    moreover from h i n have "items d = map (shape e db) (drop 10 ordered)"
      by simp
    moreover from h i n have "length (items d) = 5"
      by simp
    ultimately show "totalPages (pagination d) = Fin 2 \<and>
       items d = map (shape e db) (drop 10 ordered) \<and> length (items d) = 5"
      by simp
  qed
  from o i len t scen
  show "\<exists>ordered.
              applySort (sortObject (sortKey q)
                           (parseInt (withDefault (q_sortOrder q) (JNum (- 1)))))
                (listed e db q) = Some ordered \<and>
              items d = map (shape e db) (take l (drop ((p - 1) * l) ordered)) \<and>
              length (items d) \<le> l \<and>
              totalItems (pagination d) = length ordered \<and>
              (p = 2 \<and> l = 10 \<and> totalItems (pagination d) = 15 \<longrightarrow>
                 totalPages (pagination d) = Fin 2 \<and>
                 items d = map (shape e db) (drop 10 ordered) \<and>
                 length (items d) = 5)"
    by blast
next
  fix ascending
  assume a: "plainKey (sortKey q) \<and> sortKey q \<noteq> ''__proto__'' \<and>
            orderParam (q_sortOrder q) ascending \<and> (\<forall>c. fault db c = None)"
  with assms have "documented q p l ascending"
    by (simp add: documented_def)
  with a show "\<exists>r d. route e db q = Some r \<and> httpStatus r = 200 \<and> data r = Some d"
    using route_documented_ok by blast
  from a show "applySort (sortObject (sortKey q)
                         (parseInt (withDefault (q_sortOrder q) (JNum (- 1)))))
              (listed e db q) = Some (sort_docs (sortKey q) ascending (listed e db q))"
    by (simp add: applySort_documented)
qed

lemma db15_sequence:
  "map (\<lambda>x. map_of x ''_id'')
     (map (shape PendingApprovals db15)
        (drop 10 (sort_docs (sortKey page2limit10) False
                    (listed PendingApprovals db15 page2limit10))))
   = [Some (Val (BId 5)), Some (Val (BId 4)), Some (Val (BId 3)), Some (Val (BId 2)),
      Some (Val (BId 1))]"
  by code_simp

lemma db15_listed: "length (listed PendingApprovals db15 page2limit10) = 15"
  by code_simp

lemma page2limit10_params:
  "integerParam (q_page page2limit10) 1 2" "integerParam (q_limit page2limit10) 10 10"
  "plainKey (sortKey page2limit10)" "sortKey page2limit10 \<noteq> ''__proto__''"
  "orderParam (q_sortOrder page2limit10) False"
  by code_simp+

theorem lister_page_slice_witness:
  "integerParam (q_page page2limit10) 1 2 \<and> (1::nat) \<le> 2 \<and>
   integerParam (q_limit page2limit10) 10 10 \<and> (1::nat) \<le> 10 \<and>
   (\<forall>c. fault db15 c = None) \<and>
   (\<exists>r d. route PendingApprovals db15 page2limit10 = Some r \<and> data r = Some d \<and>
      totalItems (pagination d) = 15 \<and> totalPages (pagination d) = Fin 2 \<and>
      map (\<lambda>x. map_of x ''_id'') (items d)
        = [Some (Val (BId 5)), Some (Val (BId 4)), Some (Val (BId 3)), Some (Val (BId 2)),
           Some (Val (BId 1))])"
proof -
  note pp = page2limit10_params
  have p1: "(1::nat) \<le> 2" and l1: "(1::nat) \<le> 10"
    by simp_all
  have nf: "\<forall>c. fault db15 c = None"
    by (simp add: db15_def noFault_def)
  note t = lister_page_slice[OF pp(1) p1 pp(2) l1, of PendingApprovals db15]
  let ?seq = "sort_docs (sortKey page2limit10) False (listed PendingApprovals db15 page2limit10)"
  from t pp(3,4,5) nf obtain r d where
    rd: "route PendingApprovals db15 page2limit10 = Some r" "data r = Some d"
    and sq: "applySort (sortObject (sortKey page2limit10)
                         (parseInt (withDefault (q_sortOrder page2limit10) (JNum (- 1)))))
              (listed PendingApprovals db15 page2limit10) = Some ?seq"
    by blast
  from t rd obtain ordered where
    o: "applySort (sortObject (sortKey page2limit10)
                     (parseInt (withDefault (q_sortOrder page2limit10) (JNum (- 1)))))
          (listed PendingApprovals db15 page2limit10) = Some ordered"
    and ti: "totalItems (pagination d) = length ordered"
    and sc: "(2::nat) = 2 \<and> (10::nat) = 10 \<and> totalItems (pagination d) = 15 \<longrightarrow>
                 totalPages (pagination d) = Fin 2 \<and>
                 items d = map (shape PendingApprovals db15) (drop 10 ordered) \<and>
                 length (items d) = 5"
    by blast
  from o sq have oe: "ordered = ?seq"
    by simp
  with ti have t15: "totalItems (pagination d) = 15"
    by (simp add: length_sort_docs db15_listed)
  with sc oe have "totalPages (pagination d) = Fin 2"
    and "items d = map (shape PendingApprovals db15) (drop 10 ?seq)"
    by simp_all
  with pp p1 l1 nf rd t15 db15_sequence show ?thesis
    by auto
qed

section \<open>Boolean filters\<close>



lemma market_all_engineers: "totalOf (route Engineers market noParams) = Some 3"
  by code_simp


section \<open>The base filter of the shops endpoint\<close>

text \<open>
  C10.  Whatever the query parameters, a successful answer of \<^verbatim>\<open>getShopsList\<close> contains
  only shops whose \<^verbatim>\<open>isActive\<close> is true, and its total counts only such shops (further
  narrowed by \<^verbatim>\<open>verified\<close> when that is given).  The other three endpoints have no
  such base filter: without \<^verbatim>\<open>verified\<close> / \<^verbatim>\<open>active\<close> the engineers and ads totals are
  the sizes of the whole collections, and the pending list is filtered by status only.
\<close>

theorem shops_always_active:
  assumes "getShopsList db q = Some r" and "data r = Some d"
  shows "(\<forall>x\<in>set (items d). map_of x ''isActive'' = Some (Val (BBool True)))
       \<and> totalItems (pagination d)
           = length (filter (\<lambda>s. field s ''isActive'' = BBool True \<and>
                             (case q_verified q of
                                None \<Rightarrow> True
                              | Some v \<Rightarrow> field s ''isVerified'' = BBool (v = ''true'')))
                      (documents db Shop))
       \<and> (\<forall>r' d'. getEngineersList db q = Some r' \<and> data r' = Some d' \<and> q_verified q = None
             \<longrightarrow> totalItems (pagination d') = length (documents db Engineer))
       \<and> (\<forall>r' d'. getAdsList db q = Some r' \<and> data r' = Some d' \<and> q_active q = None
             \<longrightarrow> totalItems (pagination d') = length (documents db Ads))
       \<and> (\<forall>r' d'. getPendingApprovals db q = Some r' \<and> data r' = Some d'
             \<longrightarrow> totalItems (pagination d')
                   = length (filter (\<lambda>p. field p ''status'' = BStr ''pending'')
                               (documents db Product)))"
proof (intro conjI allI impI ballI)
  from assms have rs: "route Shops db q = Some r"
    by simp
  fix x assume "x \<in> set (items d)"
  with route_data(2)[OF rs assms(2)] obtain y where
    "x = shape Shops db y" and "y \<in> set (listed Shops db q)"
    by auto
  then have "x = shape Shops db y" and "field y ''isActive'' = BBool True"
    by (auto simp: listed_def matches_def)
  then show "map_of x ''isActive'' = Some (Val (BBool True))"
    by (simp only: shape_keeps_flag insertI1)
next
  from assms have rs: "route Shops db q = Some r"
    by simp
  from route_data(1)[OF rs assms(2)]
  show "totalItems (pagination d)
           = length (filter (\<lambda>s. field s ''isActive'' = BBool True \<and>
                             (case q_verified q of
                                None \<Rightarrow> True
                              | Some v \<Rightarrow> field s ''isVerified'' = BBool (v = ''true'')))
                      (documents db Shop))"
    by (simp add: listed_def matches_eq optionalFlag_def split: option.splits)
next
  fix r' d'
  assume a: "getEngineersList db q = Some r' \<and> data r' = Some d' \<and> q_verified q = None"
  then have "route Engineers db q = Some r'" and "data r' = Some d'"
    by simp_all
  from route_data(1)[OF this] a
  show "totalItems (pagination d') = length (documents db Engineer)"
    by (simp add: listed_def matches_eq optionalFlag_def)
next
  fix r' d'
  assume a: "getAdsList db q = Some r' \<and> data r' = Some d' \<and> q_active q = None"
  then have "route AdsList db q = Some r'" and "data r' = Some d'"
    by simp_all
  from route_data(1)[OF this] a
  show "totalItems (pagination d') = length (documents db Ads)"
    by (simp add: listed_def matches_eq optionalFlag_def)
next
  fix r' d'
  assume a: "getPendingApprovals db q = Some r' \<and> data r' = Some d'"
  then have "route PendingApprovals db q = Some r'" and "data r' = Some d'"
    by simp_all
  from route_data(1)[OF this]
  show "totalItems (pagination d')
      = length (filter (\<lambda>p. field p ''status'' = BStr ''pending'') (documents db Product))"
    by (simp add: listed_def matches_eq)
qed

lemma market_shops:
  "totalOf (getShopsList market noParams) = Some 2"
  "itemIds (getShopsList market noParams) = Some [Some (Val (BId 3)), Some (Val (BId 1))]"
  "length (documents market Shop) = 4"
  by code_simp+

theorem shops_always_active_witness:
  "\<exists>r d. getShopsList market noParams = Some r \<and> data r = Some d \<and>
     map (\<lambda>i. map_of i ''_id'') (items d) = [Some (Val (BId 3)), Some (Val (BId 1))] \<and>
     (\<forall>x\<in>set (items d). map_of x ''isActive'' = Some (Val (BBool True))) \<and>
     totalItems (pagination d) = 2 \<and> length (documents market Shop) = 4"
proof -
  from market_shops(2) obtain r d where
    rd: "getShopsList market noParams = Some r" "data r = Some d"
    and ids: "map (\<lambda>i. map_of i ''_id'') (items d) = [Some (Val (BId 3)), Some (Val (BId 1))]"
    by (auto simp: itemIds_Some)
  from market_shops(1) rd have t: "totalItems (pagination d) = 2"
    by (auto simp: totalOf_Some)
  from shops_always_active[OF rd]
  have "\<forall>x\<in>set (items d). map_of x ''isActive'' = Some (Val (BBool True))"
    by (rule conjunct1)
  with rd ids t market_shops(3) show ?thesis
    by (intro exI[of _ r] exI[of _ d]) simp
qed

section \<open>Exceptions\<close>


























section \<open>Counts and totals\<close>

lemma cards_Return:
  assumes "snd (getDashboardCards_try db) = Return cs"
  shows "count (pendingApprovalsCard cs) = length (baseDocs PendingApprovals db)"
    and "count (totalEngineersCard cs) = length (documents db Engineer)"
    and "count (verifiedShopsCard cs)
           = length (filter (\<lambda>s. field s ''isVerified'' = BBool True \<and>
                                   field s ''isActive'' = BBool True) (documents db Shop))"
    and "count (activeAdsCard cs)
           = length (filter (\<lambda>a. field a ''active'' = BBool True) (documents db Ads))"
  using assms
  by (auto simp: getDashboardCards_try_def snd_await_Return snd_countDocuments_Return
      returns_def decorate_def matches_eq)

lemma cards_ok:
  assumes "\<forall>c. fault db c = None"
  shows "\<exists>r cs. getDashboardCards db = Some r \<and> httpStatus r = 200 \<and> data r = Some cs"
proof -
  from assms have "\<exists>cs. snd (getDashboardCards_try db) = Return cs"
    by (simp add: getDashboardCards_try_def await_Return countDocuments_ok returns_def)
  then show ?thesis
    by (auto simp: getDashboardCards_def respond_Return)
qed

text \<open>
  C3.  For every state of the database, the count on a dashboard card equals the total
  reported by the list endpoint with the same filter: pending approvals and the pending
  list; total engineers and the engineers list without \<^verbatim>\<open>verified\<close>; verified shops and the
  shops list with \<^verbatim>\<open>verified=true\<close>; active ads and the ads list with \<^verbatim>\<open>active=true\<close>.
\<close>

theorem card_counts_match_totals:
  assumes "getDashboardCards db = Some rc" and "data rc = Some cs"
    and "route e db q = Some r" and "data r = Some d"
  shows "(e = PendingApprovals \<longrightarrow>
            totalItems (pagination d) = count (pendingApprovalsCard cs))
       \<and> (e = Engineers \<and> q_verified q = None \<longrightarrow>
            totalItems (pagination d) = count (totalEngineersCard cs))
       \<and> (e = Shops \<and> q_verified q = Some ''true'' \<longrightarrow>
            totalItems (pagination d) = count (verifiedShopsCard cs))
       \<and> (e = AdsList \<and> q_active q = Some ''true'' \<longrightarrow>
            totalItems (pagination d) = count (activeAdsCard cs))"
proof -
  from assms(1,2) have "snd (getDashboardCards_try db) = Return cs"
    unfolding getDashboardCards_def by (rule respond_data(1))
  note c = cards_Return[OF this]
  note t = route_data(1)[OF assms(3,4)]
  show ?thesis
  proof (intro conjI impI)
    assume "e = PendingApprovals"
    with t c(1) show "totalItems (pagination d) = count (pendingApprovalsCard cs)"
      by (simp add: listed_flag)
  next
    assume "e = Engineers \<and> q_verified q = None"
    with t c(2) show "totalItems (pagination d) = count (totalEngineersCard cs)"
      by (simp add: listed_flag)
  next
    assume "e = Shops \<and> q_verified q = Some ''true''"
    with t c(3) show "totalItems (pagination d) = count (verifiedShopsCard cs)"
      by (simp add: listed_flag conj_commute)
  next
    assume "e = AdsList \<and> q_active q = Some ''true''"
    with t c(4) show "totalItems (pagination d) = count (activeAdsCard cs)"
      by (simp add: listed_flag)
  qed
qed

lemma market_cards: "cardCounts (getDashboardCards market) = Some (1, 3, 1, 1)"
  by code_simp

lemma market_verified_shops: "totalOf (route Shops market verifiedOnly) = Some 1"
  by code_simp

lemma cardCounts_Some:
  "cardCounts x = Some (a, b, c, d) \<longleftrightarrow>
     (\<exists>r cs. x = Some r \<and> data r = Some cs \<and> count (pendingApprovalsCard cs) = a \<and>
        count (totalEngineersCard cs) = b \<and> count (verifiedShopsCard cs) = c \<and>
        count (activeAdsCard cs) = d)"
  by (cases x) (auto simp: cardCounts_def)

theorem card_counts_match_totals_witness:
  "\<exists>rc cs r d. getDashboardCards market = Some rc \<and> data rc = Some cs \<and>
      route Shops market verifiedOnly = Some r \<and> data r = Some d \<and>
      q_verified verifiedOnly = Some ''true'' \<and>
      totalItems (pagination d) = count (verifiedShopsCard cs) \<and>
      count (verifiedShopsCard cs) = 1"
proof -
  from market_cards obtain rc cs where
    c: "getDashboardCards market = Some rc" "data rc = Some cs"
    and v: "count (verifiedShopsCard cs) = 1"
    by (auto simp: cardCounts_Some)
  from market_verified_shops obtain r d where
    l: "route Shops market verifiedOnly = Some r" "data r = Some d"
    by (auto simp: totalOf_Some)
  have q: "q_verified verifiedOnly = Some ''true''"
    by (simp add: verifiedOnly_def noParams_def)
  from card_counts_match_totals[OF c l] q
  have "totalItems (pagination d) = count (verifiedShopsCard cs)"
    by simp
  with c l q v show ?thesis
    by blast
qed

section \<open>The dashboard\<close>







section \<open>Rates\<close>

lemma round_half_up:
  fixes y :: rat
  shows "of_int \<lfloor>y + 1 / 2\<rfloor> \<le> y + 1 / 2" and "y - 1 / 2 < of_int \<lfloor>y + 1 / 2\<rfloor>"
  by linarith+

lemma toFixed1_near: "\<bar>of_int (toFixed1 x) / 10 - x\<bar> \<le> 1 / 20"
proof (cases "x < 0")
  case True
  then have "toFixed1 x = - \<lfloor>- x * 10 + 1 / 2\<rfloor>"
    by (simp add: toFixed1_def)
  with round_half_up[of "- x * 10"] show ?thesis
    by (simp only: abs_le_iff of_int_minus) linarith
next
  case False
  then have "toFixed1 x = \<lfloor>x * 10 + 1 / 2\<rfloor>"
    by (simp add: toFixed1_def)
  with round_half_up[of "x * 10"] show ?thesis
    by (simp only: abs_le_iff) linarith
qed

lemma toFixed1_upper: "of_int (toFixed1 x) / 10 \<le> x + 1 / 20"
  using toFixed1_near[of x] by (simp only: abs_le_iff) linarith

lemma sum_exact:
  fixes a r t :: nat
  assumes "0 < t" "a + r \<le> t"
  shows "rat_of_nat a / of_nat t * 100 + of_nat r / of_nat t * 100 \<le> 100"
    and "rat_of_nat a / of_nat t * 100 + of_nat r / of_nat t * 100 = 100 \<longleftrightarrow> a + r = t"
proof -
  have e: "rat_of_nat a / of_nat t * 100 + of_nat r / of_nat t * 100
      = of_nat (a + r) / of_nat t * 100"
    by (simp add: add_divide_distrib)
  from assms have "rat_of_nat (a + r) \<le> of_nat t"
    by (simp only: of_nat_le_iff)
  with assms(1) have le: "rat_of_nat (a + r) / of_nat t \<le> 1"
    by (simp only: divide_le_eq_1_pos of_nat_0_less_iff)
  then have "rat_of_nat (a + r) / of_nat t * 100 \<le> 1 * 100"
    by (rule mult_right_mono) simp
  then have "rat_of_nat (a + r) / of_nat t * 100 \<le> 100"
    by simp
  then show "rat_of_nat a / of_nat t * 100 + of_nat r / of_nat t * 100 \<le> 100"
    by (simp only: e)
  from assms(1) have "rat_of_nat (a + r) / of_nat t = 1 \<longleftrightarrow> rat_of_nat (a + r) = of_nat t"
    by (simp only: divide_eq_1_iff) simp
  also have "\<dots> \<longleftrightarrow> a + r = t"
    by (simp only: of_nat_eq_iff)
  finally have q: "rat_of_nat (a + r) / of_nat t = 1 \<longleftrightarrow> a + r = t" .
  have h: "x * 100 = 100 \<longleftrightarrow> x = 1" for x :: rat
    by auto
  from q h[of "rat_of_nat (a + r) / of_nat t"] have "rat_of_nat (a + r) / of_nat t * 100 = 100 \<longleftrightarrow> a + r = t"
    by (simp only:)
  then show "rat_of_nat a / of_nat t * 100 + of_nat r / of_nat t * 100 = 100 \<longleftrightarrow> a + r = t"
    by (simp only: e)
qed

lemma statusCount_sum:
  "statusCount ''approved'' ps + statusCount ''rejected'' ps \<le> length ps"
  by (induction ps) (auto simp: statusCount_def matches_def)

lemma approvalRate_pos:
  assumes "0 < t"
  shows "approvalRate a t = Tenths (toFixed1 (of_nat a / of_nat t * 100))"
    and "rejectionRate r t = Tenths (toFixed1 (of_nat r / of_nat t * 100))"
  using assms by (simp_all add: approvalRate_def rejectionRate_def)




lemma sixteen_counts:
  "statusCount ''approved'' sixteenProducts = 1"
  "statusCount ''rejected'' sixteenProducts = 15"
  "length sixteenProducts = 16"
  by code_simp+

lemma sixteen_rates:
  "approvalRate 1 16 = Tenths 63" "rejectionRate 15 16 = Tenths 938"
  by (simp_all add: approvalRate_def rejectionRate_def toFixed1_def floor_eq_iff)

lemma sixteen_sum: "ratesSum sixteenProducts = 1001 / 10"
  unfolding ratesSum_def sixteen_counts sixteen_rates by simp

text \<open>
  C6, as stated, fails.  Of sixteen products let one be approved and fifteen rejected: the
  quotients are 6.25 and 93.75, both exact in binary floating point and both ties, which
  \<^verbatim>\<open>toFixed(1)\<close> resolves upwards, to 6.3 and 93.8.  Their sum is 100.1.
\<close>

theorem rates_sum_exceeds_100: "\<not> ratesSum sixteenProducts \<le> 100"
  by (simp add: sixteen_sum)

text \<open>
  The other half of the claim fails as well once the rates are rounded: two thousand
  approved products and one pending product give 100.0 + 0.0.
\<close>

lemma nearly_counts:
  "statusCount ''approved'' nearlyAllApproved = 2000"
  "statusCount ''rejected'' nearlyAllApproved = 0"
  "statusCount ''pending'' nearlyAllApproved = 1"
  "length nearlyAllApproved = 2001"
  by (simp_all add: statusCount_def nearlyAllApproved_def matches_def product_doc_def field_def)

lemma nearly_rates:
  "approvalRate 2000 2001 = Tenths 1000" "rejectionRate 0 2001 = Tenths 0"
  by (simp_all add: approvalRate_def rejectionRate_def toFixed1_def floor_eq_iff)

lemma nearly_sum: "ratesSum nearlyAllApproved = 100"
  unfolding ratesSum_def nearly_counts nearly_rates by simp

text \<open>
  C6, amended.  Before rounding, \<open>approved / total * 100 + rejected / total * 100\<close> is at
  most 100, with equality exactly when every product is approved or rejected.  The two
  rates as computed, each rounded to one decimal, sum to at most 100.1; without products
  their sum is 0.
\<close>

theorem rates_sum_bound:
  "ratesSum ps \<le> 1001 / 10
   \<and> (ps = [] \<longrightarrow> ratesSum ps = 0)
   \<and> (ps \<noteq> [] \<longrightarrow>
        of_nat (statusCount ''approved'' ps) / of_nat (length ps) * 100
          + of_nat (statusCount ''rejected'' ps) / of_nat (length ps) * 100 \<le> (100::rat) \<and>
        (of_nat (statusCount ''approved'' ps) / of_nat (length ps) * 100
          + of_nat (statusCount ''rejected'' ps) / of_nat (length ps) * 100 = (100::rat)
         \<longleftrightarrow> statusCount ''approved'' ps + statusCount ''rejected'' ps = length ps))"
proof (intro conjI impI)
  show "ratesSum ps = 0" if "ps = []"
    using that by (simp add: ratesSum_def approvalRate_def rejectionRate_def)
next
  assume "ps \<noteq> []"
  then have t: "0 < length ps"
    by simp
  from sum_exact[OF t statusCount_sum]
  show "of_nat (statusCount ''approved'' ps) / of_nat (length ps) * 100
          + of_nat (statusCount ''rejected'' ps) / of_nat (length ps) * 100 \<le> (100::rat)"
    and "of_nat (statusCount ''approved'' ps) / of_nat (length ps) * 100
          + of_nat (statusCount ''rejected'' ps) / of_nat (length ps) * 100 = (100::rat)
         \<longleftrightarrow> statusCount ''approved'' ps + statusCount ''rejected'' ps = length ps"
    by simp_all
next
  show "ratesSum ps \<le> 1001 / 10"
  proof (cases "ps = []")
    case True
    then show ?thesis
      by (simp add: ratesSum_def approvalRate_def rejectionRate_def)
  next
    case False
    then have t: "0 < length ps"
      by simp
    let ?x = "rat_of_nat (statusCount ''approved'' ps) / of_nat (length ps) * 100"
    let ?y = "rat_of_nat (statusCount ''rejected'' ps) / of_nat (length ps) * 100"
    have s: "ratesSum ps = of_int (toFixed1 ?x) / 10 + of_int (toFixed1 ?y) / 10"
      by (simp only: ratesSum_def approvalRate_pos[OF t] parseFloat.simps)
    from sum_exact(1)[OF t statusCount_sum] have "?x + ?y \<le> 100" .
    with toFixed1_upper[of ?x] toFixed1_upper[of ?y] show ?thesis
      unfolding s by linarith
  qed
qed

theorem rates_sum_bound_witness:
  "sixteenProducts \<noteq> [] \<and> ratesSum sixteenProducts = 1001 / 10 \<and>
   ratesSum sixteenProducts \<le> 1001 / 10 \<and>
   statusCount ''approved'' sixteenProducts + statusCount ''rejected'' sixteenProducts
     = length sixteenProducts \<and>
   of_nat (statusCount ''approved'' sixteenProducts) / of_nat (length sixteenProducts) * 100
     + of_nat (statusCount ''rejected'' sixteenProducts) / of_nat (length sixteenProducts) * 100
     = (100::rat)"
proof -
  have ne: "sixteenProducts \<noteq> []"
    by (simp add: sixteenProducts_def)
  have eq: "statusCount ''approved'' sixteenProducts + statusCount ''rejected'' sixteenProducts
     = length sixteenProducts"
    by (simp add: sixteen_counts)
  from rates_sum_bound[of sixteenProducts] ne eq sixteen_sum show ?thesis
    by blast
qed

section \<open>The category breakdown\<close>














section \<open>The sort key\<close>

lemma engineers_by_notes:
  "itemIds (getEngineersList market sortByNotes)
     = Some [Some (Val (BId 3)), Some (Val (BId 1)), Some (Val (BId 2))]"
  "itemIds (getEngineersList market sortByCreated)
     = Some [Some (Val (BId 1)), Some (Val (BId 2)), Some (Val (BId 3))]"
  "issuedSort (getEngineersList_try market sortByNotes) = [[(''notes'', Fin 1)]]"
  by code_simp+

lemma sortBy_is_the_key:
  assumes "q_sortBy q = Some s" and "s \<noteq> ''__proto__''"
  shows "sortObj (lister_find q c f p ex)
           = [(s, parseInt (withDefault (q_sortOrder q) (JNum (- 1))))]"
  using assms by (simp add: lister_find_def sortObject_def)

text \<open>
  C9.  The route documentation enumerates the values of \<^verbatim>\<open>sortBy\<close> per endpoint, for the
  engineers \<^verbatim>\<open>createdAt\<close>, \<^verbatim>\<open>name\<close> and \<^verbatim>\<open>experience\<close>.  The handler does not consult
  the enumeration: with \<^verbatim>\<open>sortBy=notes\<close> the query it issues sorts by \<^verbatim>\<open>notes\<close>, and the
  engineers come back in the order of their notes (3, 1, 2) and not of their creation
  (1, 2, 3), although \<^verbatim>\<open>notes\<close> itself is excluded from what is returned.
\<close>

theorem sortBy_outside_enum_is_applied:
  "''notes'' \<notin> set (sortByEnum Engineers)
   \<and> issuedSort (getEngineersList_try market sortByNotes) = [[(''notes'', Fin 1)]]
   \<and> itemIds (getEngineersList market sortByNotes)
       = Some [Some (Val (BId 3)), Some (Val (BId 1)), Some (Val (BId 2))]
   \<and> itemIds (getEngineersList market sortByCreated)
       = Some [Some (Val (BId 1)), Some (Val (BId 2)), Some (Val (BId 3))]"
  using engineers_by_notes by simp

end
